theory Spec2Isabelle
  imports Main "HOL-Library.Char_ord"
begin

section \<open>JavaScript values of the syntax tree\<close>

text \<open>
  The traversal of \<^verbatim>\<open>src/ltm.js\<close> receives whatever the parser returns and reads it
  dynamically: a property of an object, the elements of an array, a string. The values are
  modelled as they are at run time. An object is the list of its own properties; only the
  properties the traversal reads matter (\<^verbatim>\<open>type\<close>, \<^verbatim>\<open>body\<close>, \<^verbatim>\<open>clauses\<close>, \<^verbatim>\<open>condition\<close>,
  \<^verbatim>\<open>raw\<close>, \<^verbatim>\<open>name\<close>, ...), none of which a string or an array has. A string is the
  list of its code units, one \<^typ>\<open>char\<close> each.
\<close>

datatype jsval =
    Undefined
  | Null
  | Str string
  | Arr "jsval list"
  | Obj "(string \<times> jsval) list"

text \<open>The program has no \<^verbatim>\<open>throw\<close> of its own: a run fails with the run time's
  \<^verbatim>\<open>TypeError\<close> (a property of \<^verbatim>\<open>undefined\<close> or \<^verbatim>\<open>null\<close>, a call of something that is
  not a function), with the parser's \<^verbatim>\<open>SyntaxError\<close>, or with the file system's error for
  a file that cannot be read.\<close>

datatype error = TypeError | SyntaxError | ENOENT

fun bindE :: "error + 'a \<Rightarrow> ('a \<Rightarrow> error + 'b) \<Rightarrow> error + 'b" where
  "bindE (Inl e) f = Inl e"
| "bindE (Inr v) f = f v"

text \<open>\<^verbatim>\<open>v.k\<close>: reading a property of \<^verbatim>\<open>undefined\<close> or \<^verbatim>\<open>null\<close> throws; a property that is
  not there is \<^verbatim>\<open>undefined\<close>.\<close>

fun getp :: "jsval \<Rightarrow> string \<Rightarrow> error + jsval" where
  "getp Undefined k = Inl TypeError"
| "getp Null k = Inl TypeError"
| "getp (Obj fs) k = (case map_of fs k of None \<Rightarrow> Inr Undefined | Some v \<Rightarrow> Inr v)"
| "getp (Str s) k = Inr Undefined"
| "getp (Arr xs) k = Inr Undefined"

text \<open>\<^verbatim>\<open>v[0]\<close>, as in \<^verbatim>\<open>node.clauses[0]\<close>.\<close>

fun getIndex0 :: "jsval \<Rightarrow> error + jsval" where
  "getIndex0 Undefined = Inl TypeError"
| "getIndex0 Null = Inl TypeError"
| "getIndex0 (Arr []) = Inr Undefined"
| "getIndex0 (Arr (x # xs)) = Inr x"
| "getIndex0 (Str []) = Inr Undefined"
| "getIndex0 (Str (c # cs)) = Inr (Str [c])"
| "getIndex0 (Obj fs) = (case map_of fs ''0'' of None \<Rightarrow> Inr Undefined | Some v \<Rightarrow> Inr v)"

text \<open>The receiver of \<^verbatim>\<open>.forEach\<close> and \<^verbatim>\<open>.map\<close>: only an array has these methods, on anything
  else the call throws.\<close>

fun asArray :: "jsval \<Rightarrow> error + jsval list" where
  "asArray (Arr xs) = Inr xs"
| "asArray v = Inl TypeError"

text \<open>The test of \<^verbatim>\<open>node.step ? ... : ""\<close>.\<close>

fun truthy :: "jsval \<Rightarrow> bool" where
  "truthy Undefined = False"
| "truthy Null = False"
| "truthy (Str s) = (s \<noteq> [])"
| "truthy (Arr xs) = True"
| "truthy (Obj fs) = True"

text \<open>\<^verbatim>\<open>xs.join(sep)\<close> on strings.\<close>

fun join :: "string \<Rightarrow> string list \<Rightarrow> string" where
  "join sep [] = []"
| "join sep [x] = x"
| "join sep (x # y # ys) = x @ sep @ join sep (y # ys)"

text \<open>\<^verbatim>\<open>xs.map(f)\<close> where \<open>f\<close> may throw.\<close>

fun mapE :: "('a \<Rightarrow> error + 'b) \<Rightarrow> 'a list \<Rightarrow> error + 'b list" where
  "mapE f [] = Inr []"
| "mapE f (x # xs) = bindE (f x) (\<lambda>y. bindE (mapE f xs) (\<lambda>ys. Inr (y # ys)))"

text \<open>The string a value becomes inside a template literal, \<^verbatim>\<open>`${v}`\<close>, and the strings
  the elements of an array become under \<^verbatim>\<open>join\<close>. An array is its elements joined by a
  comma, where \<^verbatim>\<open>undefined\<close> and \<^verbatim>\<open>null\<close> elements are empty. An object is converted by
  its \<^verbatim>\<open>toString\<close>: the inherited one gives \<^verbatim>\<open>[object Object]\<close>; an own property of that
  name hides it, and as no value here is a function the conversion then throws.\<close>

fun toStr :: "jsval \<Rightarrow> error + string"
  and elemStrs :: "jsval list \<Rightarrow> error + string list" where
  "toStr Undefined = Inr ''undefined''"
| "toStr Null = Inr ''null''"
| "toStr (Str s) = Inr s"
| "toStr (Arr xs) = bindE (elemStrs xs) (\<lambda>ts. Inr (join '','' ts))"
| "toStr (Obj fs) =
     (if ''toString'' \<in> set (map fst fs) then Inl TypeError else Inr ''[object Object]'')"
| "elemStrs [] = Inr []"
| "elemStrs (x # xs) =
     bindE (if x = Undefined \<or> x = Null then Inr [] else toStr x) (\<lambda>t.
     bindE (elemStrs xs) (\<lambda>ts. Inr (t # ts)))"

text \<open>\<^verbatim>\<open>a.map((v) => v.k).join(", ")\<close>.\<close>

definition joinProp :: "jsval \<Rightarrow> string \<Rightarrow> error + string" where
  "joinProp a k =
     bindE (asArray a) (\<lambda>xs. bindE (mapE (\<lambda>v. getp v k) xs) (\<lambda>vs.
     bindE (elemStrs vs) (\<lambda>ts. Inr (join '', '' ts))))"

section \<open>sanitizeLabel\<close>

text \<open>\<^verbatim>\<open>label.replace(/[^a-zA-Z0-9_ ]/g, "_")\<close>: every code unit outside the class becomes
  an underscore.\<close>

definition allowedChar :: "char \<Rightarrow> bool" where
  "allowedChar c \<longleftrightarrow>
     (CHR ''a'' \<le> c \<and> c \<le> CHR ''z'') \<or> (CHR ''A'' \<le> c \<and> c \<le> CHR ''Z'') \<or>
     (CHR ''0'' \<le> c \<and> c \<le> CHR ''9'') \<or> c = CHR ''_'' \<or> c = CHR '' ''"

definition sanitizeLabel :: "string \<Rightarrow> string" where
  "sanitizeLabel label = map (\<lambda>c. if allowedChar c then c else CHR ''_'') label"

section \<open>The state of one run of generateMermaid\<close>

record dnode =
  node_id :: string
  node_label :: string

text \<open>An edge \<^verbatim>\<open>{ from, to, condition }\<close>: \<^verbatim>\<open>to\<close> may hold \<^verbatim>\<open>null\<close>, \<^verbatim>\<open>condition\<close> is
  absent on the edges from a parent.\<close>

record edge =
  edge_from :: string
  edge_to :: "string option"
  edge_condition :: "string option"

record state =
  nodes :: "dnode list"
  edges :: "edge list"
  nodeId :: nat

text \<open>The decimal numeral of the counter, as the template literal \<^verbatim>\<open>`node${nodeId++}`\<close>
  prints it. The counter is a natural number: a run cannot reach the size where a double
  stops counting.\<close>

definition digitChar :: "nat \<Rightarrow> char" where
  "digitChar d = ''0123456789'' ! d"

fun numberToString :: "nat \<Rightarrow> string" where
  "numberToString n =
     (if n < 10 then [digitChar n] else numberToString (n div 10) @ [digitChar (n mod 10)])"

definition nodeName :: "nat \<Rightarrow> string" where
  "nodeName n = ''node'' @ numberToString n"

definition createNode :: "string \<Rightarrow> state \<Rightarrow> string \<times> state" where
  "createNode label s =
     (let id' = nodeName (nodeId s) in
      (id', s\<lparr>nodeId := nodeId s + 1,
              nodes := nodes s @ [\<lparr>node_id = id', node_label = sanitizeLabel label\<rparr>]\<rparr>))"

text \<open>\<^verbatim>\<open>if (parentNodeId) { edges.push({ from: parentNodeId, to: currentNodeId }); }\<close>, the
  three lines every case that creates a node repeats. \<^verbatim>\<open>null\<close> and the empty string are
  falsy.\<close>

definition linkParent :: "string option \<Rightarrow> string \<Rightarrow> state \<Rightarrow> state" where
  "linkParent parentNodeId currentNodeId s =
     (case parentNodeId of
        None \<Rightarrow> s
      | Some p \<Rightarrow>
          if p = [] then s
          else s\<lparr>edges := edges s @
                 [\<lparr>edge_from = p, edge_to = Some currentNodeId, edge_condition = None\<rparr>]\<rparr>)"

section \<open>The labels\<close>

text \<open>\<^verbatim>\<open>`if ${node.clauses[0].condition.raw}`\<close>\<close>

definition label_IfStatement :: "jsval \<Rightarrow> error + string" where
  "label_IfStatement node =
     bindE (getp node ''clauses'') (\<lambda>cs. bindE (getIndex0 cs) (\<lambda>c.
     bindE (getp c ''condition'') (\<lambda>cond. bindE (getp cond ''raw'') (\<lambda>r.
     bindE (toStr r) (\<lambda>t.
       Inr (''if '' @ t))))))"

text \<open>\<^verbatim>\<open>`while ${node.condition.raw}`\<close>\<close>

definition label_WhileStatement :: "jsval \<Rightarrow> error + string" where
  "label_WhileStatement node =
     bindE (getp node ''condition'') (\<lambda>cond. bindE (getp cond ''raw'') (\<lambda>r.
     bindE (toStr r) (\<lambda>t.
       Inr (''while '' @ t))))"

text \<open>\<^verbatim>\<open>`until ${node.condition.raw}`\<close>\<close>

definition label_until :: "jsval \<Rightarrow> error + string" where
  "label_until node =
     bindE (getp node ''condition'') (\<lambda>cond. bindE (getp cond ''raw'') (\<lambda>r.
     bindE (toStr r) (\<lambda>t.
       Inr (''until '' @ t))))"

text \<open>\<^verbatim>\<open>`for ${node.variable.name} = ${node.start.raw}, ${node.end.raw}${
  node.step ? `, ${node.step.raw}` : ""}`\<close>\<close>

definition label_ForNumericStatement :: "jsval \<Rightarrow> error + string" where
  "label_ForNumericStatement node =
     bindE (getp node ''variable'') (\<lambda>v. bindE (getp v ''name'') (\<lambda>n.
     bindE (getp node ''start'') (\<lambda>st. bindE (getp st ''raw'') (\<lambda>a.
     bindE (getp node ''end'') (\<lambda>en. bindE (getp en ''raw'') (\<lambda>b.
     bindE (getp node ''step'') (\<lambda>step.
     bindE (toStr n) (\<lambda>tn. bindE (toStr a) (\<lambda>ta. bindE (toStr b) (\<lambda>tb.
     bindE (if truthy step
            then bindE (getp step ''raw'') (\<lambda>c. bindE (toStr c) (\<lambda>tc. Inr ('', '' @ tc)))
            else Inr []) (\<lambda>tl.
       Inr (''for '' @ tn @ '' = '' @ ta @ '', '' @ tb @ tl))))))))))))"

text \<open>\<^verbatim>\<open>`for ${node.variables.map((v) => v.name).join(", ")} in ${
  node.iterators.map((i) => i.raw).join(", ")}`\<close>\<close>

definition label_ForGenericStatement :: "jsval \<Rightarrow> error + string" where
  "label_ForGenericStatement node =
     bindE (getp node ''variables'') (\<lambda>vs. bindE (joinProp vs ''name'') (\<lambda>a.
     bindE (getp node ''iterators'') (\<lambda>its. bindE (joinProp its ''raw'') (\<lambda>b.
       Inr (''for '' @ a @ '' in '' @ b)))))"

text \<open>\<^verbatim>\<open>const args = node.parameters.map((param) => param.name).join(", ");\<close> and
  \<^verbatim>\<open>`function ${node.identifier.name}(${args})`\<close>\<close>

definition label_FunctionDeclaration :: "jsval \<Rightarrow> error + string" where
  "label_FunctionDeclaration node =
     bindE (getp node ''parameters'') (\<lambda>ps. bindE (joinProp ps ''name'') (\<lambda>args.
     bindE (getp node ''identifier'') (\<lambda>i. bindE (getp i ''name'') (\<lambda>n.
     bindE (toStr n) (\<lambda>tn.
       Inr (''function '' @ tn @ ''('' @ args @ '')''))))))"

text \<open>\<^verbatim>\<open>`return ${node.arguments.map((arg) => arg.raw).join(", ")}`\<close>\<close>

definition label_ReturnStatement :: "jsval \<Rightarrow> error + string" where
  "label_ReturnStatement node =
     bindE (getp node ''arguments'') (\<lambda>as. bindE (joinProp as ''raw'') (\<lambda>a.
       Inr (''return '' @ a)))"

text \<open>\<^verbatim>\<open>`call ${node.expression.base.name}(${node.expression.arguments
  .map((arg) => arg.raw).join(", ")})`\<close>\<close>

definition label_CallStatement :: "jsval \<Rightarrow> error + string" where
  "label_CallStatement node =
     bindE (getp node ''expression'') (\<lambda>e. bindE (getp e ''base'') (\<lambda>b.
     bindE (getp b ''name'') (\<lambda>n.
     bindE (getp e ''arguments'') (\<lambda>as. bindE (joinProp as ''raw'') (\<lambda>a.
     bindE (toStr n) (\<lambda>tn.
       Inr (''call '' @ tn @ ''('' @ a @ '')'')))))))"

text \<open>\<^verbatim>\<open>`${node.variables.map((v) => v.name).join(", ")} = ${node.init
  .map((i) => i.raw).join(", ")}`\<close>\<close>

definition label_AssignmentStatement :: "jsval \<Rightarrow> error + string" where
  "label_AssignmentStatement node =
     bindE (getp node ''variables'') (\<lambda>vs. bindE (joinProp vs ''name'') (\<lambda>a.
     bindE (getp node ''init'') (\<lambda>is. bindE (joinProp is ''raw'') (\<lambda>b.
       Inr (a @ '' = '' @ b)))))"

text \<open>\<^verbatim>\<open>`table { ${node.fields.map((field) => `${field.key.raw} = ${field.value.raw}`)
  .join(", ")} }`\<close>\<close>

definition fieldText :: "jsval \<Rightarrow> error + string" where
  "fieldText field =
     bindE (getp field ''key'') (\<lambda>k. bindE (getp k ''raw'') (\<lambda>a.
     bindE (getp field ''value'') (\<lambda>v. bindE (getp v ''raw'') (\<lambda>b.
     bindE (toStr a) (\<lambda>ta. bindE (toStr b) (\<lambda>tb.
       Inr (ta @ '' = '' @ tb)))))))"

definition label_TableConstructorExpression :: "jsval \<Rightarrow> error + string" where
  "label_TableConstructorExpression node =
     bindE (getp node ''fields'') (\<lambda>fs. bindE (asArray fs) (\<lambda>xs.
     bindE (mapE fieldText xs) (\<lambda>ts.
       Inr (''table { '' @ join '', '' ts @ '' }''))))"

text \<open>\<^verbatim>\<open>`local ${node.variables.map((v) => v.name).join(", ")} = ${node.init
  .map((i) => i.raw).join(", ")}`\<close>\<close>

definition label_LocalStatement :: "jsval \<Rightarrow> error + string" where
  "label_LocalStatement node =
     bindE (getp node ''variables'') (\<lambda>vs. bindE (joinProp vs ''name'') (\<lambda>a.
     bindE (getp node ''init'') (\<lambda>is. bindE (joinProp is ''raw'') (\<lambda>b.
       Inr (''local '' @ a @ '' = '' @ b)))))"

text \<open>\<^verbatim>\<open>createNode(node.type)\<close> of the default case: \<^verbatim>\<open>sanitizeLabel\<close> calls
  \<^verbatim>\<open>label.replace\<close>, which only a string has.\<close>

fun label_default :: "jsval \<Rightarrow> error + string" where
  "label_default (Str t) = Inr t"
| "label_default v = Inl TypeError"

section \<open>traverseNode\<close>

text \<open>The recursion is on the syntax tree: a call goes to a property of the node, or to an
  element of the array. The rule below tells the definition that \<open>bindE\<close> runs its second
  argument only on the value of its first.\<close>

lemma bindE_cong [fundef_cong]:
  "m = m' \<Longrightarrow> (\<And>v. m' = Inr v \<Longrightarrow> f v = f' v) \<Longrightarrow> bindE m f = bindE m' f'"
  by (cases m') auto

text \<open>A property of a node, and an element of an array, is smaller than the node.\<close>

lemma map_of_size:
  "map_of fs k = Some v \<Longrightarrow> size v < Suc (size_list (size_prod (\<lambda>x. 0) size) fs)"
  by (induction fs) (auto split: if_splits)

lemma getp_size_le: "getp node k = Inr v \<Longrightarrow> size v \<le> size node"
  by (cases node) (auto split: option.splits dest: map_of_size)

lemma getp_size_less:
  "getp node k = Inr (Str t) \<Longrightarrow> getp node k' = Inr v \<Longrightarrow> size v < size node"
  by (cases node) (auto split: option.splits dest: map_of_size)

lemma asArray_size:
  "getp node k = Inr b \<Longrightarrow> asArray b = Inr xs \<Longrightarrow> size_list size xs < size node"
  using getp_size_le [of node k b] by (cases b) auto

lemma getp_size_Suc: "getp c k = Inr b \<Longrightarrow> size b < Suc (size c + n)"
  using getp_size_le [of c k b] by simp

text \<open>
  \<open>traverseNode node parentNodeId s\<close> is the call \<^verbatim>\<open>traverseNode(node, parentNodeId)\<close> in
  the state \<open>s\<close> of the three variables \<^verbatim>\<open>nodes\<close>, \<^verbatim>\<open>edges\<close>, \<^verbatim>\<open>nodeId\<close>; it returns
  \<^verbatim>\<open>currentNodeId\<close> (\<open>None\<close> is \<^verbatim>\<open>null\<close>) and the new state, or the error thrown. The
  \<^verbatim>\<open>switch\<close> compares \<^verbatim>\<open>node.type\<close> with the case labels in their order, so the chain of
  tests below has the label \<^verbatim>\<open>"RepeatStatement"\<close> twice, as the source has.

  \<open>forEachNode\<close> is \<^verbatim>\<open>xs.forEach((n) => traverseNode(n, parentNodeId))\<close>, the loop of the
  \<^verbatim>\<open>Chunk\<close> case and of the array case. \<open>forEachClause\<close> is the loop
  \<^verbatim>\<open>node.clauses.forEach((clause, index) => ...)\<close> of the \<^verbatim>\<open>IfStatement\<close> case, from the
  index given.
\<close>

function traverseNode :: "jsval \<Rightarrow> string option \<Rightarrow> state \<Rightarrow> error + (string option \<times> state)"
  and forEachNode :: "jsval list \<Rightarrow> string option \<Rightarrow> state \<Rightarrow> error + state"
  and forEachClause :: "jsval list \<Rightarrow> nat \<Rightarrow> string \<Rightarrow> state \<Rightarrow> error + state"
where
  "traverseNode node parentNodeId s =
     bindE (getp node ''type'') (\<lambda>t.
       if t = Str ''Chunk'' then
         bindE (getp node ''body'') (\<lambda>b. bindE (asArray b) (\<lambda>stmts.
         bindE (forEachNode stmts parentNodeId s) (\<lambda>s'. Inr (None, s'))))
       else if t = Str ''IfStatement'' then
         bindE (label_IfStatement node) (\<lambda>l.
           let (ifConditionNode, s1) = createNode l s;
               s2 = linkParent parentNodeId ifConditionNode s1
           in bindE (getp node ''clauses'') (\<lambda>c. bindE (asArray c) (\<lambda>cs.
              bindE (forEachClause cs 0 ifConditionNode s2) (\<lambda>s3.
                Inr (Some ifConditionNode, s3)))))
       else if t = Str ''WhileStatement'' then
         bindE (label_WhileStatement node) (\<lambda>l.
           let (whileNode, s1) = createNode l s;
               s2 = linkParent parentNodeId whileNode s1
           in bindE (getp node ''body'') (\<lambda>b.
              bindE (traverseNode b (Some whileNode) s2) (\<lambda>(r, s3).
                Inr (Some whileNode, s3))))
       else if t = Str ''RepeatStatement'' then
         (let (repeatNode, s1) = createNode ''repeat'' s;
              s2 = linkParent parentNodeId repeatNode s1
          in bindE (getp node ''body'') (\<lambda>b.
             bindE (traverseNode b (Some repeatNode) s2) (\<lambda>(r, s3).
             bindE (label_until node) (\<lambda>l.
               let (untilNode, s4) = createNode l s3
               in Inr (Some repeatNode,
                    s4\<lparr>edges := edges s4 @
                      [\<lparr>edge_from = repeatNode, edge_to = Some untilNode,
                        edge_condition = None\<rparr>]\<rparr>)))))
       else if t = Str ''ForNumericStatement'' then
         bindE (label_ForNumericStatement node) (\<lambda>l.
           let (forNumericNode, s1) = createNode l s;
               s2 = linkParent parentNodeId forNumericNode s1
           in bindE (getp node ''body'') (\<lambda>b.
              bindE (traverseNode b (Some forNumericNode) s2) (\<lambda>(r, s3).
                Inr (Some forNumericNode, s3))))
       else if t = Str ''ForGenericStatement'' then
         bindE (label_ForGenericStatement node) (\<lambda>l.
           let (forGenericNode, s1) = createNode l s;
               s2 = linkParent parentNodeId forGenericNode s1
           in bindE (getp node ''body'') (\<lambda>b.
              bindE (traverseNode b (Some forGenericNode) s2) (\<lambda>(r, s3).
                Inr (Some forGenericNode, s3))))
       else if t = Str ''FunctionDeclaration'' then
         bindE (label_FunctionDeclaration node) (\<lambda>l.
           let (funcNode, s1) = createNode l s;
               s2 = linkParent parentNodeId funcNode s1
           in bindE (getp node ''body'') (\<lambda>b.
              bindE (traverseNode b (Some funcNode) s2) (\<lambda>(r, s3).
                Inr (Some funcNode, s3))))
       else if t = Str ''ReturnStatement'' then
         bindE (label_ReturnStatement node) (\<lambda>l.
           let (returnNode, s1) = createNode l s
           in Inr (Some returnNode, linkParent parentNodeId returnNode s1))
       else if t = Str ''CallStatement'' then
         bindE (label_CallStatement node) (\<lambda>l.
           let (callNode, s1) = createNode l s
           in Inr (Some callNode, linkParent parentNodeId callNode s1))
       else if t = Str ''AssignmentStatement'' then
         bindE (label_AssignmentStatement node) (\<lambda>l.
           let (assignNode, s1) = createNode l s
           in Inr (Some assignNode, linkParent parentNodeId assignNode s1))
       else if t = Str ''TableConstructorExpression'' then
         bindE (label_TableConstructorExpression node) (\<lambda>l.
           let (tableNode, s1) = createNode l s
           in Inr (Some tableNode, linkParent parentNodeId tableNode s1))
       else if t = Str ''LocalStatement'' then
         bindE (label_LocalStatement node) (\<lambda>l.
           let (localNode, s1) = createNode l s
           in Inr (Some localNode, linkParent parentNodeId localNode s1))
       else if t = Str ''RepeatStatement'' then
         bindE (label_until node) (\<lambda>l.
           let (repeatConditionNode, s1) = createNode l s;
               s2 = linkParent parentNodeId repeatConditionNode s1
           in bindE (getp node ''body'') (\<lambda>b.
              bindE (traverseNode b (Some repeatConditionNode) s2) (\<lambda>(r, s3).
                Inr (Some repeatConditionNode, s3))))
       else
         (case node of
            Arr childNodes \<Rightarrow>
              bindE (forEachNode childNodes parentNodeId s) (\<lambda>s'. Inr (None, s'))
          | _ \<Rightarrow>
              bindE (label_default t) (\<lambda>l.
                let (defaultNode, s1) = createNode l s
                in Inr (Some defaultNode, linkParent parentNodeId defaultNode s1))))"
| "forEachNode [] parentNodeId s = Inr s"
| "forEachNode (childNode # rest) parentNodeId s =
     bindE (traverseNode childNode parentNodeId s) (\<lambda>(r, s'). forEachNode rest parentNodeId s')"
| "forEachClause [] index ifConditionNode s = Inr s"
| "forEachClause (clause # rest) index ifConditionNode s =
     bindE (getp clause ''body'') (\<lambda>b.
     bindE (traverseNode b (Some ifConditionNode) s) (\<lambda>(clauseNodeId, s1).
       forEachClause rest (index + 1) ifConditionNode
         (if index > 0
          then s1\<lparr>edges := edges s1 @
                 [\<lparr>edge_from = ifConditionNode, edge_to = clauseNodeId,
                   edge_condition = Some (if index = 1 then ''No'' else ''Else'')\<rparr>]\<rparr>
          else s1)))"
  by pat_completeness auto

termination
  apply (relation "measure (\<lambda>x. case x of
           Inl (node, p, s) \<Rightarrow> size node
         | Inr (Inl (xs, p, s)) \<Rightarrow> size_list size xs
         | Inr (Inr (cs, i, c, s)) \<Rightarrow> size_list size cs)")
  apply (auto intro: asArray_size getp_size_less getp_size_Suc)
  done

section \<open>generateMermaid\<close>

definition renderNode :: "dnode \<Rightarrow> string" where
  "renderNode n = ''  '' @ node_id n @ ''['' @ node_label n @ ''];'' @ [CHR 0x0A]"

text \<open>\<^verbatim>\<open>`  ${edge.from}-->${edge.to};\n`\<close>: a \<^verbatim>\<open>null\<close> target prints as the word
  \<^verbatim>\<open>null\<close>; the \<^verbatim>\<open>condition\<close> of an edge is not printed.\<close>

definition renderEdge :: "edge \<Rightarrow> string" where
  "renderEdge e =
     ''  '' @ edge_from e @ ''-->'' @ (case edge_to e of None \<Rightarrow> ''null'' | Some t \<Rightarrow> t) @
     '';'' @ [CHR 0x0A]"

definition render :: "state \<Rightarrow> string" where
  "render s =
     ''graph TD;'' @ [CHR 0x0A] @ concat (map renderNode (nodes s)) @
     concat (map renderEdge (edges s))"

text \<open>The three variables are declared inside \<^verbatim>\<open>generateMermaid\<close>, so every call starts
  from the state below.\<close>

definition initialState :: state where
  "initialState = \<lparr>nodes = [], edges = [], nodeId = 0\<rparr>"

definition generateMermaid :: "jsval \<Rightarrow> error + string" where
  "generateMermaid ast =
     bindE (traverseNode ast None initialState) (\<lambda>(r, s). Inr (render s))"

text \<open>One invocation after another. The variables \<^verbatim>\<open>nodes\<close>, \<^verbatim>\<open>edges\<close> and \<^verbatim>\<open>nodeId\<close> are
  declared in the body of \<^verbatim>\<open>generateMermaid\<close>: an invocation allocates them anew, and the
  functions \<^verbatim>\<open>createNode\<close> and \<^verbatim>\<open>traverseNode\<close> it declares read and write the variables of
  this invocation. A process holds the records of variables allocated so far, in the order
  of allocation; \<open>traverseNodeAt a\<close> is the traversal of the invocation whose record is at
  \<open>a\<close>. An invocation that throws leaves the process to its caller's handler; the program
  has none.\<close>

definition traverseNodeAt ::
  "nat \<Rightarrow> jsval \<Rightarrow> string option \<Rightarrow> state list \<Rightarrow> error + (string option \<times> state list)" where
  "traverseNodeAt a node parentNodeId h =
     bindE (traverseNode node parentNodeId (h ! a)) (\<lambda>(r, s). Inr (r, h[a := s]))"

definition generateMermaidIn :: "jsval \<Rightarrow> state list \<Rightarrow> error + (string \<times> state list)" where
  "generateMermaidIn ast h =
     (let a = length h;
          h1 = h @ [\<lparr>nodes = [], edges = [], nodeId = 0\<rparr>]
      in bindE (traverseNodeAt a ast None h1) (\<lambda>(r, h2). Inr (render (h2 ! a), h2)))"

section \<open>main\<close>

text \<open>What a run of the program can touch: the files (a name to its contents), and the
  lines printed to the two streams. The parser \<^verbatim>\<open>luaparse.parse\<close> is a library outside the
  repository and is a parameter.\<close>

record world =
  files :: "string \<rightharpoonup> string"
  stdout :: "string list"
  stderr :: "string list"

datatype outcome = Returned world | Exited nat world | Thrown error world

definition parseLuaFile ::
  "(string \<Rightarrow> error + jsval) \<Rightarrow> string \<Rightarrow> world \<Rightarrow> error + jsval" where
  "parseLuaFile parse filePath w =
     (case files w filePath of None \<Rightarrow> Inl ENOENT | Some luaCode \<Rightarrow> parse luaCode)"

text \<open>\<open>argv\<close> is \<^verbatim>\<open>process.argv\<close>; \<^verbatim>\<open>process.argv[2]\<close> is \<^verbatim>\<open>undefined\<close> when the list is
  shorter, and \<^verbatim>\<open>!inputFilePath\<close> holds of \<^verbatim>\<open>undefined\<close> and of the empty string.\<close>

definition main :: "(string \<Rightarrow> error + jsval) \<Rightarrow> string list \<Rightarrow> world \<Rightarrow> outcome" where
  "main parse argv w =
     (let inputFilePath = (if 2 < length argv then Some (argv ! 2) else None);
          outputFilePath = ''output.mermaid''
      in case inputFilePath of
           None \<Rightarrow>
             Exited 1 (w\<lparr>stderr := stderr w @
               [''Please provide a Lua file path as an argument.'']\<rparr>)
         | Some path \<Rightarrow>
             if path = [] then
               Exited 1 (w\<lparr>stderr := stderr w @
                 [''Please provide a Lua file path as an argument.'']\<rparr>)
             else
               (case parseLuaFile parse path w of
                  Inl e \<Rightarrow> Thrown e w
                | Inr ast \<Rightarrow>
                    (case generateMermaid ast of
                       Inl e \<Rightarrow> Thrown e w
                     | Inr mermaidCode \<Rightarrow>
                         Returned (w\<lparr>files := (files w)
                             (outputFilePath \<mapsto> mermaidCode,
                              outputFilePath @ ''.md'' \<mapsto>
                                ''```mermaid'' @ [CHR 0x0A] @ mermaidCode @ [CHR 0x0A] @ ''```''),
                           stdout := stdout w @
                             [''Mermaid diagram saved to '' @ outputFilePath]\<rparr>))))"

section \<open>The second copy of the program\<close>

text \<open>
  \<^verbatim>\<open>src/unnamed/part_000\<close> is a second copy of the program, with fewer cases in the
  \<^verbatim>\<open>switch\<close> (no \<^verbatim>\<open>RepeatStatement\<close>, \<^verbatim>\<open>ForGenericStatement\<close>, \<^verbatim>\<open>LocalStatement\<close> and
  \<^verbatim>\<open>TableConstructorExpression\<close>, which go to the default case), a shorter label for the
  numeric \<^verbatim>\<open>for\<close>, the fence of the code block put by \<^verbatim>\<open>generateMermaid\<close> itself, and a
  \<^verbatim>\<open>main\<close> that writes one file. \<^verbatim>\<open>sanitizeLabel\<close>, \<^verbatim>\<open>createNode\<close> and \<^verbatim>\<open>parseLuaFile\<close> are
  the same in both. Its functions carry the names of the source with a \<open>0\<close>.
\<close>

text \<open>\<^verbatim>\<open>`for ${node.variable.name}`\<close>\<close>

definition label_ForNumericStatement0 :: "jsval \<Rightarrow> error + string" where
  "label_ForNumericStatement0 node =
     bindE (getp node ''variable'') (\<lambda>v. bindE (getp v ''name'') (\<lambda>n.
     bindE (toStr n) (\<lambda>tn.
       Inr (''for '' @ tn))))"

function traverseNode0 :: "jsval \<Rightarrow> string option \<Rightarrow> state \<Rightarrow> error + (string option \<times> state)"
  and forEachNode0 :: "jsval list \<Rightarrow> string option \<Rightarrow> state \<Rightarrow> error + state"
  and forEachClause0 :: "jsval list \<Rightarrow> nat \<Rightarrow> string \<Rightarrow> state \<Rightarrow> error + state"
where
  "traverseNode0 node parentNodeId s =
     bindE (getp node ''type'') (\<lambda>t.
       if t = Str ''Chunk'' then
         bindE (getp node ''body'') (\<lambda>b. bindE (asArray b) (\<lambda>stmts.
         bindE (forEachNode0 stmts parentNodeId s) (\<lambda>s'. Inr (None, s'))))
       else if t = Str ''IfStatement'' then
         bindE (label_IfStatement node) (\<lambda>l.
           let (conditionNode, s1) = createNode l s;
               s2 = linkParent parentNodeId conditionNode s1
           in bindE (getp node ''clauses'') (\<lambda>c. bindE (asArray c) (\<lambda>cs.
              bindE (forEachClause0 cs 0 conditionNode s2) (\<lambda>s3.
                Inr (Some conditionNode, s3)))))
       else if t = Str ''WhileStatement'' then
         bindE (label_WhileStatement node) (\<lambda>l.
           let (whileNode, s1) = createNode l s;
               s2 = linkParent parentNodeId whileNode s1
           in bindE (getp node ''body'') (\<lambda>b.
              bindE (traverseNode0 b (Some whileNode) s2) (\<lambda>(r, s3).
                Inr (Some whileNode, s3))))
       else if t = Str ''ForNumericStatement'' then
         bindE (label_ForNumericStatement0 node) (\<lambda>l.
           let (forNode, s1) = createNode l s;
               s2 = linkParent parentNodeId forNode s1
           in bindE (getp node ''body'') (\<lambda>b.
              bindE (traverseNode0 b (Some forNode) s2) (\<lambda>(r, s3).
                Inr (Some forNode, s3))))
       else if t = Str ''FunctionDeclaration'' then
         bindE (label_FunctionDeclaration node) (\<lambda>l.
           let (funcNode, s1) = createNode l s;
               s2 = linkParent parentNodeId funcNode s1
           in bindE (getp node ''body'') (\<lambda>b.
              bindE (traverseNode0 b (Some funcNode) s2) (\<lambda>(r, s3).
                Inr (Some funcNode, s3))))
       else if t = Str ''ReturnStatement'' then
         bindE (label_ReturnStatement node) (\<lambda>l.
           let (returnNode, s1) = createNode l s
           in Inr (Some returnNode, linkParent parentNodeId returnNode s1))
       else if t = Str ''CallStatement'' then
         bindE (label_CallStatement node) (\<lambda>l.
           let (callNode, s1) = createNode l s
           in Inr (Some callNode, linkParent parentNodeId callNode s1))
       else if t = Str ''AssignmentStatement'' then
         bindE (label_AssignmentStatement node) (\<lambda>l.
           let (assignNode, s1) = createNode l s
           in Inr (Some assignNode, linkParent parentNodeId assignNode s1))
       else
         (case node of
            Arr childNodes \<Rightarrow>
              bindE (forEachNode0 childNodes parentNodeId s) (\<lambda>s'. Inr (None, s'))
          | _ \<Rightarrow>
              bindE (label_default t) (\<lambda>l.
                let (defaultNode, s1) = createNode l s
                in Inr (Some defaultNode, linkParent parentNodeId defaultNode s1))))"
| "forEachNode0 [] parentNodeId s = Inr s"
| "forEachNode0 (childNode # rest) parentNodeId s =
     bindE (traverseNode0 childNode parentNodeId s) (\<lambda>(r, s'). forEachNode0 rest parentNodeId s')"
| "forEachClause0 [] index conditionNode s = Inr s"
| "forEachClause0 (clause # rest) index conditionNode s =
     bindE (getp clause ''body'') (\<lambda>b.
     bindE (traverseNode0 b (Some conditionNode) s) (\<lambda>(clauseNodeId, s1).
       forEachClause0 rest (index + 1) conditionNode
         (if index > 0
          then s1\<lparr>edges := edges s1 @
                 [\<lparr>edge_from = conditionNode, edge_to = clauseNodeId,
                   edge_condition = Some (if index = 1 then ''No'' else ''Else'')\<rparr>]\<rparr>
          else s1)))"
  by pat_completeness auto
termination
  apply (relation "measure (\<lambda>x. case x of
           Inl (node, p, s) \<Rightarrow> size node
         | Inr (Inl (xs, p, s)) \<Rightarrow> size_list size xs
         | Inr (Inr (cs, i, c, s)) \<Rightarrow> size_list size cs)")
  apply (auto intro: asArray_size getp_size_less getp_size_Suc)
  done

definition generateMermaid0 :: "jsval \<Rightarrow> error + string" where
  "generateMermaid0 ast =
     bindE (traverseNode0 ast None initialState) (\<lambda>(r, s).
       Inr (''```mermaid'' @ [CHR 0x0A] @ render s @ ''```''))"

definition traverseNode0At ::
  "nat \<Rightarrow> jsval \<Rightarrow> string option \<Rightarrow> state list \<Rightarrow> error + (string option \<times> state list)" where
  "traverseNode0At a node parentNodeId h =
     bindE (traverseNode0 node parentNodeId (h ! a)) (\<lambda>(r, s). Inr (r, h[a := s]))"

definition generateMermaid0In :: "jsval \<Rightarrow> state list \<Rightarrow> error + (string \<times> state list)" where
  "generateMermaid0In ast h =
     (let a = length h;
          h1 = h @ [\<lparr>nodes = [], edges = [], nodeId = 0\<rparr>]
      in bindE (traverseNode0At a ast None h1) (\<lambda>(r, h2).
           Inr (''```mermaid'' @ [CHR 0x0A] @ render (h2 ! a) @ ''```'', h2)))"

definition main0 :: "(string \<Rightarrow> error + jsval) \<Rightarrow> string list \<Rightarrow> world \<Rightarrow> outcome" where
  "main0 parse argv w =
     (let inputFilePath = (if 2 < length argv then Some (argv ! 2) else None);
          outputFilePath = ''output.mermaid.md''
      in case inputFilePath of
           None \<Rightarrow>
             Exited 1 (w\<lparr>stderr := stderr w @
               [''Please provide a Lua file path as an argument.'']\<rparr>)
         | Some path \<Rightarrow>
             if path = [] then
               Exited 1 (w\<lparr>stderr := stderr w @
                 [''Please provide a Lua file path as an argument.'']\<rparr>)
             else
               (case parseLuaFile parse path w of
                  Inl e \<Rightarrow> Thrown e w
                | Inr ast \<Rightarrow>
                    (case generateMermaid0 ast of
                       Inl e \<Rightarrow> Thrown e w
                     | Inr mermaidCode \<Rightarrow>
                         Returned (w\<lparr>files := (files w)(outputFilePath \<mapsto> mermaidCode),
                           stdout := stdout w @
                             [''Mermaid diagram saved to '' @ outputFilePath]\<rparr>))))"

section \<open>Example inputs\<close>

text \<open>The trees \<^verbatim>\<open>luaparse.parse\<close> returns, with the properties the traversal reads. A
  literal carries its source text in \<^verbatim>\<open>raw\<close>; an \<^verbatim>\<open>Identifier\<close> has a \<^verbatim>\<open>name\<close> and no
  \<^verbatim>\<open>raw\<close>; the body of a chunk, of a clause and of a loop is an array of statements.\<close>

text \<open>\<^verbatim>\<open>return 1\<close>, for the numeral given.\<close>

definition ast_return :: "string \<Rightarrow> jsval" where
  "ast_return r =
     Obj [(''type'', Str ''ReturnStatement''),
          (''arguments'', Arr [Obj [(''type'', Str ''NumericLiteral''), (''raw'', Str r)]])]"

text \<open>\<^verbatim>\<open>if x then return 1 else return 2 end\<close>\<close>

definition ast_if_else :: jsval where
  "ast_if_else =
     Obj [(''type'', Str ''Chunk''),
          (''body'', Arr [
             Obj [(''type'', Str ''IfStatement''),
                  (''clauses'', Arr [
                     Obj [(''type'', Str ''IfClause''),
                          (''condition'',
                             Obj [(''type'', Str ''Identifier''), (''name'', Str ''x'')]),
                          (''body'', Arr [ast_return ''1''])],
                     Obj [(''type'', Str ''ElseClause''),
                          (''body'', Arr [ast_return ''2''])]])]]),
          (''comments'', Arr [])]"

text \<open>The state in which the traversal of \<open>ast_if_else\<close> ends.\<close>

definition state_if_else :: state where
  "state_if_else =
     \<lparr>nodes =
        [\<lparr>node_id = ''node0'', node_label = ''if undefined''\<rparr>,
         \<lparr>node_id = ''node1'', node_label = ''return 1''\<rparr>,
         \<lparr>node_id = ''node2'', node_label = ''return 2''\<rparr>],
      edges =
        [\<lparr>edge_from = ''node0'', edge_to = Some ''node1'', edge_condition = None\<rparr>,
         \<lparr>edge_from = ''node0'', edge_to = Some ''node2'', edge_condition = None\<rparr>,
         \<lparr>edge_from = ''node0'', edge_to = None, edge_condition = Some ''No''\<rparr>],
      nodeId = 3\<rparr>"



text \<open>\<^verbatim>\<open>repeat break until true\<close>, and the state in which its traversal ends.\<close>

definition ast_repeat :: jsval where
  "ast_repeat =
     Obj [(''type'', Str ''RepeatStatement''),
          (''condition'', Obj [(''type'', Str ''BooleanLiteral''), (''raw'', Str ''true'')]),
          (''body'', Arr [Obj [(''type'', Str ''BreakStatement'')]])]"

definition state_repeat :: state where
  "state_repeat =
     \<lparr>nodes =
        [\<lparr>node_id = ''node0'', node_label = ''repeat''\<rparr>,
         \<lparr>node_id = ''node1'', node_label = ''BreakStatement''\<rparr>,
         \<lparr>node_id = ''node2'', node_label = ''until true''\<rparr>],
      edges =
        [\<lparr>edge_from = ''node0'', edge_to = Some ''node1'', edge_condition = None\<rparr>,
         \<lparr>edge_from = ''node0'', edge_to = Some ''node2'', edge_condition = None\<rparr>],
      nodeId = 3\<rparr>"

text \<open>\<^verbatim>\<open>repeat break until x\<close>\<close>

definition ast_repeat_x :: jsval where
  "ast_repeat_x =
     Obj [(''type'', Str ''RepeatStatement''),
          (''condition'', Obj [(''type'', Str ''Identifier''), (''name'', Str ''x'')]),
          (''body'', Arr [Obj [(''type'', Str ''BreakStatement'')]])]"


text \<open>\<^verbatim>\<open>true\<close> or \<^verbatim>\<open>false\<close>: a Boolean literal with its source text.\<close>

definition ast_bool :: "string \<Rightarrow> jsval" where
  "ast_bool r = Obj [(''type'', Str ''BooleanLiteral''), (''raw'', Str r)]"

text \<open>\<^verbatim>\<open>if true then return 1 elseif c then return 2 else return 3 end\<close>, for the
  condition \<open>c\<close> of the \<^verbatim>\<open>elseif\<close>, and the state in which its traversal ends.\<close>

definition ast_if_elseif_else :: "jsval \<Rightarrow> jsval" where
  "ast_if_elseif_else c =
     Obj [(''type'', Str ''IfStatement''),
          (''clauses'', Arr [
             Obj [(''type'', Str ''IfClause''), (''condition'', ast_bool ''true''),
                  (''body'', Arr [ast_return ''1''])],
             Obj [(''type'', Str ''ElseifClause''), (''condition'', c),
                  (''body'', Arr [ast_return ''2''])],
             Obj [(''type'', Str ''ElseClause''), (''body'', Arr [ast_return ''3''])]])]"

definition state_if_elseif_else :: state where
  "state_if_elseif_else =
     \<lparr>nodes =
        [\<lparr>node_id = ''node0'', node_label = ''if true''\<rparr>,
         \<lparr>node_id = ''node1'', node_label = ''return 1''\<rparr>,
         \<lparr>node_id = ''node2'', node_label = ''return 2''\<rparr>,
         \<lparr>node_id = ''node3'', node_label = ''return 3''\<rparr>],
      edges =
        [\<lparr>edge_from = ''node0'', edge_to = Some ''node1'', edge_condition = None\<rparr>,
         \<lparr>edge_from = ''node0'', edge_to = Some ''node2'', edge_condition = None\<rparr>,
         \<lparr>edge_from = ''node0'', edge_to = None, edge_condition = Some ''No''\<rparr>,
         \<lparr>edge_from = ''node0'', edge_to = Some ''node3'', edge_condition = None\<rparr>,
         \<lparr>edge_from = ''node0'', edge_to = None, edge_condition = Some ''Else''\<rparr>],
      nodeId = 4\<rparr>"

text \<open>An \<^verbatim>\<open>Identifier\<close>: its \<^verbatim>\<open>name\<close>, and no \<^verbatim>\<open>raw\<close>.\<close>

definition ast_identifier :: "string \<Rightarrow> jsval" where
  "ast_identifier n = Obj [(''type'', Str ''Identifier''), (''name'', Str n)]"

text \<open>\<^verbatim>\<open>while true do repeat break until x end\<close>; the state in which the \<^verbatim>\<open>while\<close> node has
  been created, with which the traversal enters the body of the loop; and the state in which
  the traversal ends.\<close>

definition ast_while_repeat_x :: jsval where
  "ast_while_repeat_x =
     Obj [(''type'', Str ''Chunk''),
          (''body'', Arr [
             Obj [(''type'', Str ''WhileStatement''),
                  (''condition'', Obj [(''type'', Str ''BooleanLiteral''), (''raw'', Str ''true'')]),
                  (''body'', Arr [
                     Obj [(''type'', Str ''RepeatStatement''),
                          (''condition'',
                             Obj [(''type'', Str ''Identifier''), (''name'', Str ''x'')]),
                          (''body'', Arr [Obj [(''type'', Str ''BreakStatement'')]])]])]]),
          (''comments'', Arr [])]"

definition state_while :: state where
  "state_while =
     \<lparr>nodes = [\<lparr>node_id = ''node0'', node_label = ''while true''\<rparr>], edges = [], nodeId = 1\<rparr>"

definition state_while_repeat_x :: state where
  "state_while_repeat_x =
     \<lparr>nodes =
        [\<lparr>node_id = ''node0'', node_label = ''while true''\<rparr>,
         \<lparr>node_id = ''node1'', node_label = ''repeat''\<rparr>,
         \<lparr>node_id = ''node2'', node_label = ''BreakStatement''\<rparr>,
         \<lparr>node_id = ''node3'', node_label = ''until undefined''\<rparr>],
      edges =
        [\<lparr>edge_from = ''node0'', edge_to = Some ''node1'', edge_condition = None\<rparr>,
         \<lparr>edge_from = ''node1'', edge_to = Some ''node2'', edge_condition = None\<rparr>,
         \<lparr>edge_from = ''node1'', edge_to = Some ''node3'', edge_condition = None\<rparr>],
      nodeId = 4\<rparr>"

text \<open>\<^verbatim>\<open>if a then return 1 elseif c then return 2 else return 3 end\<close>, for the condition \<open>c\<close>
  of the \<^verbatim>\<open>elseif\<close>; the chunk of
  \<^verbatim>\<open>if a then return 1 elseif b then return 2 else return 3 end\<close>; and the state in which
  the traversal of the statement ends when it is the body of the loop above.\<close>

definition ast_if_a_elseif :: "jsval \<Rightarrow> jsval" where
  "ast_if_a_elseif c =
     Obj [(''type'', Str ''IfStatement''),
          (''clauses'', Arr [
             Obj [(''type'', Str ''IfClause''), (''condition'', ast_identifier ''a''),
                  (''body'', Arr [ast_return ''1''])],
             Obj [(''type'', Str ''ElseifClause''), (''condition'', c),
                  (''body'', Arr [ast_return ''2''])],
             Obj [(''type'', Str ''ElseClause''), (''body'', Arr [ast_return ''3''])]])]"

definition ast_if_a_elseif_b :: jsval where
  "ast_if_a_elseif_b =
     Obj [(''type'', Str ''Chunk''),
          (''body'', Arr [
             Obj [(''type'', Str ''IfStatement''),
                  (''clauses'', Arr [
                     Obj [(''type'', Str ''IfClause''),
                          (''condition'',
                             Obj [(''type'', Str ''Identifier''), (''name'', Str ''a'')]),
                          (''body'', Arr [ast_return ''1''])],
                     Obj [(''type'', Str ''ElseifClause''),
                          (''condition'',
                             Obj [(''type'', Str ''Identifier''), (''name'', Str ''b'')]),
                          (''body'', Arr [ast_return ''2''])],
                     Obj [(''type'', Str ''ElseClause''),
                          (''body'', Arr [ast_return ''3''])]])]]),
          (''comments'', Arr [])]"

definition state_while_if :: state where
  "state_while_if =
     \<lparr>nodes =
        [\<lparr>node_id = ''node0'', node_label = ''while true''\<rparr>,
         \<lparr>node_id = ''node1'', node_label = ''if undefined''\<rparr>,
         \<lparr>node_id = ''node2'', node_label = ''return 1''\<rparr>,
         \<lparr>node_id = ''node3'', node_label = ''return 2''\<rparr>,
         \<lparr>node_id = ''node4'', node_label = ''return 3''\<rparr>],
      edges =
        [\<lparr>edge_from = ''node0'', edge_to = Some ''node1'', edge_condition = None\<rparr>,
         \<lparr>edge_from = ''node1'', edge_to = Some ''node2'', edge_condition = None\<rparr>,
         \<lparr>edge_from = ''node1'', edge_to = Some ''node3'', edge_condition = None\<rparr>,
         \<lparr>edge_from = ''node1'', edge_to = None, edge_condition = Some ''No''\<rparr>,
         \<lparr>edge_from = ''node1'', edge_to = Some ''node4'', edge_condition = None\<rparr>,
         \<lparr>edge_from = ''node1'', edge_to = None, edge_condition = Some ''Else''\<rparr>],
      nodeId = 5\<rparr>"

text \<open>The tree of an empty source file.\<close>

definition ast_empty_chunk :: jsval where
  "ast_empty_chunk = Obj [(''type'', Str ''Chunk''), (''body'', Arr []), (''comments'', Arr [])]"

text \<open>A file system that holds the empty source file \<^verbatim>\<open>a.lua\<close> and nothing else.\<close>

definition world_one_file :: world where
  "world_one_file = \<lparr>files = [''a.lua'' \<mapsto> ''''], stdout = [], stderr = []\<rparr>"

section \<open>Vocabulary of the properties\<close>

text \<open>Reading a decimal numeral back.\<close>

definition digitVal :: "char \<Rightarrow> nat" where
  "digitVal c = of_char c - 48"

definition digitsVal :: "string \<Rightarrow> nat" where
  "digitsVal cs = foldl (\<lambda>a c. 10 * a + digitVal c) 0 cs"

text \<open>\<open>fresh lo hi\<close> are the ids given out while the counter goes from \<open>lo\<close> to \<open>hi\<close>. An
  edge pushed in that time is \<open>newEdgeOK\<close>: its target is such an id, or \<^verbatim>\<open>null\<close> on an edge
  that has a \<^verbatim>\<open>condition\<close>; its source is such an id or the parent passed in (with
  \<open>lab\<close>, the parent may also be the source of an edge that has a \<^verbatim>\<open>condition\<close>).
  \<open>grows lab p s s'\<close>: the state \<open>s'\<close> is \<open>s\<close> with nodes appended that carry the ids in
  order, and with such edges appended.\<close>

definition fresh :: "nat \<Rightarrow> nat \<Rightarrow> string set" where
  "fresh lo hi = nodeName ` {lo..<hi}"

definition newEdgeOK :: "bool \<Rightarrow> string option \<Rightarrow> nat \<Rightarrow> nat \<Rightarrow> edge \<Rightarrow> bool" where
  "newEdgeOK lab p lo hi e \<longleftrightarrow>
     (case edge_to e of None \<Rightarrow> edge_condition e \<noteq> None | Some t \<Rightarrow> t \<in> fresh lo hi) \<and>
     (edge_from e \<in> fresh lo hi \<or> (p = Some (edge_from e) \<and> (lab \<or> edge_condition e = None)))"

definition grows :: "bool \<Rightarrow> string option \<Rightarrow> state \<Rightarrow> state \<Rightarrow> bool" where
  "grows lab p s s' \<longleftrightarrow>
     nodeId s \<le> nodeId s' \<and>
     (\<exists>ns. nodes s' = nodes s @ ns \<and> map node_id ns = map nodeName [nodeId s..<nodeId s']) \<and>
     (\<exists>es. edges s' = edges s @ es \<and> (\<forall>e\<in>set es. newEdgeOK lab p (nodeId s) (nodeId s') e))"

text \<open>The branch labels on the edges that leave the node \<open>c\<close>, in the order of the edge
  list.\<close>

definition branchLabels :: "string \<Rightarrow> edge list \<Rightarrow> string option list" where
  "branchLabels c es =
     map edge_condition (filter (\<lambda>e. edge_from e = c \<and> edge_condition e \<noteq> None) es)"














text \<open>The edge from the parent that a case pushes when it has created the node \<open>i\<close>: one
  edge without a branch label if there is a parent, none if the parent is \<^verbatim>\<open>null\<close> (or the
  empty string).\<close>

definition parentLink :: "string option \<Rightarrow> string \<Rightarrow> edge list" where
  "parentLink p i =
     (case p of
        None \<Rightarrow> []
      | Some q \<Rightarrow>
          if q = [] then []
          else [\<lparr>edge_from = q, edge_to = Some i, edge_condition = None\<rparr>])"

section \<open>Auxiliary facts\<close>

declare numberToString.simps [simp del]
declare traverseNode.simps [simp del]
declare traverseNode0.simps [simp del]

subsection \<open>The character class\<close>

lemma allowedChar_underscore: "allowedChar CHR ''_''"
  by (simp add: allowedChar_def)

subsection \<open>Decimal numerals are read back\<close>

lemma digitVal_digitChar: "d < 10 \<Longrightarrow> digitVal (digitChar d) = d"
proof -
  assume "d < 10"
  then have "d \<in> {0, 1, 2, 3, 4, 5, 6, 7, 8, 9}" by auto
  then show ?thesis by (auto simp: digitVal_def digitChar_def)
qed

lemma digitsVal_numberToString: "digitsVal (numberToString n) = n"
proof (induction n rule: numberToString.induct)
  case (1 n)
  show ?case
  proof (cases "n < 10")
    case True
    then show ?thesis
      by (simp add: digitsVal_def digitVal_digitChar numberToString.simps [of n])
  next
    case False
    with 1 have "digitsVal (numberToString (n div 10)) = n div 10" by simp
    moreover have "numberToString n = numberToString (n div 10) @ [digitChar (n mod 10)]"
      using False by (simp add: numberToString.simps [of n])
    ultimately show ?thesis
      by (simp add: digitsVal_def digitVal_digitChar)
  qed
qed

lemma numberToString_inj: "numberToString m = numberToString n \<Longrightarrow> m = n"
  by (metis digitsVal_numberToString)

lemma nodeName_eq_iff: "nodeName m = nodeName n \<longleftrightarrow> m = n"
  by (auto simp: nodeName_def dest: numberToString_inj)

subsection \<open>What a traversal adds to the state\<close>

lemma fresh_mono: "lo' \<le> lo \<Longrightarrow> hi \<le> hi' \<Longrightarrow> fresh lo hi \<subseteq> fresh lo' hi'"
  by (auto simp: fresh_def)

lemma newEdgeOK_mono:
  "newEdgeOK lab p lo hi e \<Longrightarrow> lo' \<le> lo \<Longrightarrow> hi \<le> hi' \<Longrightarrow> newEdgeOK lab p lo' hi' e"
  using fresh_mono [of lo' lo hi hi']
  by (auto simp: newEdgeOK_def split: option.splits)

lemma newEdgeOK_child:
  "newEdgeOK lab' (Some (nodeName k)) lo hi e \<Longrightarrow> lo' \<le> k \<Longrightarrow> k < hi' \<Longrightarrow> lo' \<le> lo \<Longrightarrow>
   hi \<le> hi' \<Longrightarrow> newEdgeOK lab p lo' hi' e"
proof -
  assume a: "newEdgeOK lab' (Some (nodeName k)) lo hi e" "lo' \<le> k" "k < hi'" "lo' \<le> lo" "hi \<le> hi'"
  then have k: "nodeName k \<in> fresh lo' hi'" by (simp add: fresh_def)
  from a have sub: "fresh lo hi \<subseteq> fresh lo' hi'" by (simp add: fresh_mono)
  from a(1) have "edge_from e \<in> fresh lo hi \<or> edge_from e = nodeName k"
    by (auto simp: newEdgeOK_def)
  with k sub have "edge_from e \<in> fresh lo' hi'" by auto
  moreover from a(1) sub
  have "case edge_to e of None \<Rightarrow> edge_condition e \<noteq> None | Some t \<Rightarrow> t \<in> fresh lo' hi'"
    by (auto simp: newEdgeOK_def split: option.splits)
  ultimately show ?thesis by (simp add: newEdgeOK_def)
qed

lemma grows_refl: "grows lab p s s"
  by (simp add: grows_def)

lemma upt_split: "a \<le> b \<Longrightarrow> b \<le> c \<Longrightarrow> [a..<c] = [a..<b] @ [b..<c]"
  by (metis le_Suc_ex upt_add_eq_append)

lemma grows_child:
  assumes "grows lab p s s1" and "grows lab' (Some (nodeName k)) s1 s2"
    and "nodeId s \<le> k" and "k < nodeId s1"
  shows "grows lab p s s2"
proof -
  from assms(1) obtain ns es where 1: "nodeId s \<le> nodeId s1" "nodes s1 = nodes s @ ns"
    "map node_id ns = map nodeName [nodeId s..<nodeId s1]" "edges s1 = edges s @ es"
    "\<forall>e\<in>set es. newEdgeOK lab p (nodeId s) (nodeId s1) e"
    by (auto simp: grows_def)
  from assms(2) obtain ns' es' where 2: "nodeId s1 \<le> nodeId s2" "nodes s2 = nodes s1 @ ns'"
    "map node_id ns' = map nodeName [nodeId s1..<nodeId s2]" "edges s2 = edges s1 @ es'"
    "\<forall>e\<in>set es'. newEdgeOK lab' (Some (nodeName k)) (nodeId s1) (nodeId s2) e"
    by (auto simp: grows_def)
  have "nodes s2 = nodes s @ (ns @ ns')" using 1 2 by simp
  moreover have "map node_id (ns @ ns') = map nodeName [nodeId s..<nodeId s2]"
    using 1 2 upt_split [of "nodeId s" "nodeId s1" "nodeId s2"] by simp
  moreover have "edges s2 = edges s @ (es @ es')" using 1 2 by simp
  moreover have "\<forall>e\<in>set (es @ es'). newEdgeOK lab p (nodeId s) (nodeId s2) e"
    using 1 2 assms(3,4)
    by (auto intro: newEdgeOK_mono [of lab p "nodeId s" "nodeId s1"]
                    newEdgeOK_child [of lab' k "nodeId s1" "nodeId s2"])
  ultimately show ?thesis
    unfolding grows_def using 1(1) 2(1) by (meson le_trans)
qed

lemma grows_trans:
  assumes "grows lab p s s1" and "grows lab p s1 s2"
  shows "grows lab p s s2"
proof -
  from assms(1) obtain ns es where 1: "nodeId s \<le> nodeId s1" "nodes s1 = nodes s @ ns"
    "map node_id ns = map nodeName [nodeId s..<nodeId s1]" "edges s1 = edges s @ es"
    "\<forall>e\<in>set es. newEdgeOK lab p (nodeId s) (nodeId s1) e"
    by (auto simp: grows_def)
  from assms(2) obtain ns' es' where 2: "nodeId s1 \<le> nodeId s2" "nodes s2 = nodes s1 @ ns'"
    "map node_id ns' = map nodeName [nodeId s1..<nodeId s2]" "edges s2 = edges s1 @ es'"
    "\<forall>e\<in>set es'. newEdgeOK lab p (nodeId s1) (nodeId s2) e"
    by (auto simp: grows_def)
  have "nodes s2 = nodes s @ (ns @ ns')" using 1 2 by simp
  moreover have "map node_id (ns @ ns') = map nodeName [nodeId s..<nodeId s2]"
    using 1 2 upt_split [of "nodeId s" "nodeId s1" "nodeId s2"] by simp
  moreover have "edges s2 = edges s @ (es @ es')" using 1 2 by simp
  moreover have "\<forall>e\<in>set (es @ es'). newEdgeOK lab p (nodeId s) (nodeId s2) e"
    using 1 2
    by (auto intro: newEdgeOK_mono [of lab p "nodeId s" "nodeId s1"]
                    newEdgeOK_mono [of lab p "nodeId s1" "nodeId s2"])
  ultimately show ?thesis
    unfolding grows_def using 1(1) 2(1) by (meson le_trans)
qed

lemma grows_weaken: "grows False p s s' \<Longrightarrow> grows lab p s s'"
  by (auto simp: grows_def newEdgeOK_def split: option.splits)

lemma grows_push:
  "grows lab p s s1 \<Longrightarrow> newEdgeOK lab p (nodeId s) (nodeId s1) e \<Longrightarrow>
   grows lab p s (s1\<lparr>edges := edges s1 @ [e]\<rparr>)"
  by (auto simp: grows_def)

lemma createNode_grows:
  "createNode l s = (i, s1) \<Longrightarrow>
   i = nodeName (nodeId s) \<and> nodeId s1 = Suc (nodeId s) \<and> grows lab p s s1"
  by (auto simp: createNode_def Let_def grows_def)

lemma nodeId_linkParent [simp]: "nodeId (linkParent p i s) = nodeId s"
  by (simp add: linkParent_def split: option.splits)

lemma nodes_linkParent [simp]: "nodes (linkParent p i s) = nodes s"
  by (simp add: linkParent_def split: option.splits)

lemma linkParent_grows:
  "grows lab p s s1 \<Longrightarrow> i \<in> fresh (nodeId s) (nodeId s1) \<Longrightarrow> grows lab p s (linkParent p i s1)"
  by (auto simp: linkParent_def newEdgeOK_def intro!: grows_push split: option.splits)

lemma create_link_grows:
  assumes "createNode l s = (i, s1)"
  shows "grows lab p s (linkParent p i s1) \<and> i = nodeName (nodeId s) \<and>
         nodeId (linkParent p i s1) = Suc (nodeId s)"
proof -
  from createNode_grows [OF assms, of lab p]
  have 1: "i = nodeName (nodeId s)" "nodeId s1 = Suc (nodeId s)" "grows lab p s s1" by auto
  then have "i \<in> fresh (nodeId s) (nodeId s1)" by (auto simp: fresh_def)
  with 1 show ?thesis by (auto intro: linkParent_grows)
qed

lemma bindE_Inr: "bindE m f = Inr y \<longleftrightarrow> (\<exists>v. m = Inr v \<and> f v = Inr y)"
  by (cases m) auto

lemma case_not_Arr:
  "\<not> (\<exists>xs. node = Arr xs) \<Longrightarrow>
   (case node of Arr xs \<Rightarrow> f xs | _ \<Rightarrow> g) = g"
  by (cases node) auto

lemma leaf_ok:
  assumes "createNode l s = (i, s1)"
  shows "grows False p s (linkParent p i s1) \<and>
         Some i \<in> Some ` fresh (nodeId s) (nodeId (linkParent p i s1))"
  using create_link_grows [OF assms, of False p] by (auto simp: fresh_def)

lemma container_ok:
  assumes "createNode l s = (i, s1)"
    and "grows lab' (Some i) (linkParent p i s1) s3"
  shows "grows False p s s3 \<and> Some i \<in> Some ` fresh (nodeId s) (nodeId s3)"
proof -
  from create_link_grows [OF assms(1), of False p]
  have c: "grows False p s (linkParent p i s1)" "i = nodeName (nodeId s)"
    "nodeId (linkParent p i s1) = Suc (nodeId s)" by auto
  from assms(2) have le: "nodeId (linkParent p i s1) \<le> nodeId s3" by (simp add: grows_def)
  have "grows False p s s3"
    using grows_child [OF c(1), of lab' "nodeId s" s3] assms(2) c(2,3) by simp
  moreover have "i \<in> fresh (nodeId s) (nodeId s3)"
    using c(2,3) le by (auto simp: fresh_def)
  ultimately show ?thesis by simp
qed

lemma traverse_grows:
  "\<forall>r s'. traverseNode node p s = Inr (r, s') \<longrightarrow>
     grows False p s s' \<and> (r = None \<or> r \<in> Some ` fresh (nodeId s) (nodeId s'))"
  "\<forall>s'. forEachNode xs p s = Inr s' \<longrightarrow> grows False p s s'"
  "\<forall>s'. forEachClause cs i c s = Inr s' \<longrightarrow> grows True (Some c) s s'"
proof (induction node p s and xs p s and cs i c s rule: traverseNode_forEachNode_forEachClause.induct)
  case (1 node p s)
  show ?case
  proof (intro allI impI)
    fix r s'
    assume run: "traverseNode node p s = Inr (r, s')"
    then obtain t where t: "getp node ''type'' = Inr t"
      by (auto simp: traverseNode.simps [of node p s] bindE_Inr)
    consider (Chunk) "t = Str ''Chunk''" | (If) "t = Str ''IfStatement''"
      | (While) "t = Str ''WhileStatement''" | (Repeat) "t = Str ''RepeatStatement''"
      | (ForNumeric) "t = Str ''ForNumericStatement''"
      | (ForGeneric) "t = Str ''ForGenericStatement''"
      | (Function) "t = Str ''FunctionDeclaration''"
      | (Return) "t = Str ''ReturnStatement''" | (Call) "t = Str ''CallStatement''"
      | (Assignment) "t = Str ''AssignmentStatement''"
      | (Table) "t = Str ''TableConstructorExpression''"
      | (Local) "t = Str ''LocalStatement''"
      | (Default) "t \<noteq> Str ''Chunk''" "t \<noteq> Str ''IfStatement''"
          "t \<noteq> Str ''WhileStatement''" "t \<noteq> Str ''RepeatStatement''"
          "t \<noteq> Str ''ForNumericStatement''" "t \<noteq> Str ''ForGenericStatement''"
          "t \<noteq> Str ''FunctionDeclaration''" "t \<noteq> Str ''ReturnStatement''"
          "t \<noteq> Str ''CallStatement''" "t \<noteq> Str ''AssignmentStatement''"
          "t \<noteq> Str ''TableConstructorExpression''" "t \<noteq> Str ''LocalStatement''"
      by fast
    then show "grows False p s s' \<and> (r = None \<or> r \<in> Some ` fresh (nodeId s) (nodeId s'))"
    proof cases
      case Chunk
      with run t obtain b stmts where "getp node ''body'' = Inr b" "asArray b = Inr stmts"
        "forEachNode stmts p s = Inr s'" "r = None"
        by (auto simp: traverseNode.simps [of node p s] bindE_Inr)
      with "1.IH"(1) [OF t Chunk] show ?thesis by blast
    next
      case If
      with run t obtain l where l: "label_IfStatement node = Inr l"
        by (auto simp: traverseNode.simps [of node p s] bindE_Inr)
      define i s1 where "i = fst (createNode l s)" and "s1 = snd (createNode l s)"
      then have c: "createNode l s = (i, s1)" by simp
      from run t If l c obtain cl cs where cl: "getp node ''clauses'' = Inr cl"
        and cs: "asArray cl = Inr cs"
        and tr: "forEachClause cs 0 i (linkParent p i s1) = Inr s'"
        and r: "r = Some i"
        by (auto simp: traverseNode.simps [of node p s] bindE_Inr)
      have "grows True (Some i) (linkParent p i s1) s'"
        using "1.IH"(2) [OF t _ If l refl c [symmetric] refl cl cs] If tr by simp
      with container_ok [OF c] r show ?thesis by blast
    next
      case While
      with run t obtain l where l: "label_WhileStatement node = Inr l"
        by (auto simp: traverseNode.simps [of node p s] bindE_Inr)
      define i s1 where "i = fst (createNode l s)" and "s1 = snd (createNode l s)"
      then have c: "createNode l s = (i, s1)" by simp
      from run t While l c obtain b v where b: "getp node ''body'' = Inr b"
        and tr: "traverseNode b (Some i) (linkParent p i s1) = Inr v"
        and r: "r = Some i" "s' = snd v"
        by (auto simp: traverseNode.simps [of node p s] bindE_Inr case_prod_beta)
      have "grows False (Some i) (linkParent p i s1) (snd v)"
        using "1.IH"(3) [OF t _ _ While l refl c [symmetric] refl b] While tr
        by (cases v) simp
      with container_ok [OF c] r show ?thesis by blast
    next
      case Repeat
      define i s1 where "i = fst (createNode ''repeat'' s)" and "s1 = snd (createNode ''repeat'' s)"
      then have c: "createNode ''repeat'' s = (i, s1)" by simp
      from run t Repeat c obtain b v l where b: "getp node ''body'' = Inr b"
        and tr: "traverseNode b (Some i) (linkParent p i s1) = Inr v"
        and l: "label_until node = Inr l"
        and r: "r = Some i"
        and s': "s' = (snd (createNode l (snd v)))\<lparr>edges := edges (snd (createNode l (snd v))) @
           [\<lparr>edge_from = i, edge_to = Some (fst (createNode l (snd v))),
             edge_condition = None\<rparr>]\<rparr>"
        by (auto simp: traverseNode.simps [of node p s] bindE_Inr case_prod_beta)
      have "grows False (Some i) (linkParent p i s1) (snd v)"
        using "1.IH"(4) [OF t _ _ _ Repeat refl c [symmetric] refl b] Repeat tr
        by (cases v) simp
      with container_ok [OF c]
      have g3: "grows False p s (snd v)" and i: "i \<in> fresh (nodeId s) (nodeId (snd v))"
        by blast+
      define u s4 where "u = fst (createNode l (snd v))" and "s4 = snd (createNode l (snd v))"
      then have c4: "createNode l (snd v) = (u, s4)" by simp
      from createNode_grows [OF c4, of False p]
      have u: "u = nodeName (nodeId (snd v))" "nodeId s4 = Suc (nodeId (snd v))"
        and g4: "grows False p (snd v) s4" by auto
      from g3 g4 have g: "grows False p s s4" by (rule grows_trans)
      from g3 have "nodeId s \<le> nodeId (snd v)" by (simp add: grows_def)
      with u have "u \<in> fresh (nodeId s) (nodeId s4)" by (auto simp: fresh_def)
      moreover from i u have i4: "i \<in> fresh (nodeId s) (nodeId s4)" by (auto simp: fresh_def)
      ultimately have "newEdgeOK False p (nodeId s) (nodeId s4)
          \<lparr>edge_from = i, edge_to = Some u, edge_condition = None\<rparr>"
        by (simp add: newEdgeOK_def)
      with g have "grows False p s s'"
        unfolding s' u_def [symmetric] s4_def [symmetric] by (rule grows_push)
      moreover have "nodeId s' = nodeId s4" by (simp add: s' s4_def)
      ultimately show ?thesis using r i4 by simp
    next
      case ForNumeric
      with run t obtain l where l: "label_ForNumericStatement node = Inr l"
        by (auto simp: traverseNode.simps [of node p s] bindE_Inr)
      define i s1 where "i = fst (createNode l s)" and "s1 = snd (createNode l s)"
      then have c: "createNode l s = (i, s1)" by simp
      from run t ForNumeric l c obtain b v where b: "getp node ''body'' = Inr b"
        and tr: "traverseNode b (Some i) (linkParent p i s1) = Inr v"
        and r: "r = Some i" "s' = snd v"
        by (auto simp: traverseNode.simps [of node p s] bindE_Inr case_prod_beta)
      have "grows False (Some i) (linkParent p i s1) (snd v)"
        using "1.IH"(5) [OF t _ _ _ _ ForNumeric l refl c [symmetric] refl b] ForNumeric tr
        by (cases v) simp
      with container_ok [OF c] r show ?thesis by blast
    next
      case ForGeneric
      with run t obtain l where l: "label_ForGenericStatement node = Inr l"
        by (auto simp: traverseNode.simps [of node p s] bindE_Inr)
      define i s1 where "i = fst (createNode l s)" and "s1 = snd (createNode l s)"
      then have c: "createNode l s = (i, s1)" by simp
      from run t ForGeneric l c obtain b v where b: "getp node ''body'' = Inr b"
        and tr: "traverseNode b (Some i) (linkParent p i s1) = Inr v"
        and r: "r = Some i" "s' = snd v"
        by (auto simp: traverseNode.simps [of node p s] bindE_Inr case_prod_beta)
      have "grows False (Some i) (linkParent p i s1) (snd v)"
        using "1.IH"(6) [OF t _ _ _ _ _ ForGeneric l refl c [symmetric] refl b] ForGeneric tr
        by (cases v) simp
      with container_ok [OF c] r show ?thesis by blast
    next
      case Function
      with run t obtain l where l: "label_FunctionDeclaration node = Inr l"
        by (auto simp: traverseNode.simps [of node p s] bindE_Inr)
      define i s1 where "i = fst (createNode l s)" and "s1 = snd (createNode l s)"
      then have c: "createNode l s = (i, s1)" by simp
      from run t Function l c obtain b v where b: "getp node ''body'' = Inr b"
        and tr: "traverseNode b (Some i) (linkParent p i s1) = Inr v"
        and r: "r = Some i" "s' = snd v"
        by (auto simp: traverseNode.simps [of node p s] bindE_Inr case_prod_beta)
      have "grows False (Some i) (linkParent p i s1) (snd v)"
        using "1.IH"(7) [OF t _ _ _ _ _ _ Function l refl c [symmetric] refl b] Function tr
        by (cases v) simp
      with container_ok [OF c] r show ?thesis by blast
    next
      case Return
      with run t obtain l where l: "label_ReturnStatement node = Inr l"
        by (auto simp: traverseNode.simps [of node p s] bindE_Inr)
      define i s1 where "i = fst (createNode l s)" and "s1 = snd (createNode l s)"
      then have c: "createNode l s = (i, s1)" by simp
      from run t Return l c have "r = Some i" "s' = linkParent p i s1"
        by (auto simp: traverseNode.simps [of node p s] bindE_Inr)
      with leaf_ok [OF c] show ?thesis by blast
    next
      case Call
      with run t obtain l where l: "label_CallStatement node = Inr l"
        by (auto simp: traverseNode.simps [of node p s] bindE_Inr)
      define i s1 where "i = fst (createNode l s)" and "s1 = snd (createNode l s)"
      then have c: "createNode l s = (i, s1)" by simp
      from run t Call l c have "r = Some i" "s' = linkParent p i s1"
        by (auto simp: traverseNode.simps [of node p s] bindE_Inr)
      with leaf_ok [OF c] show ?thesis by blast
    next
      case Assignment
      with run t obtain l where l: "label_AssignmentStatement node = Inr l"
        by (auto simp: traverseNode.simps [of node p s] bindE_Inr)
      define i s1 where "i = fst (createNode l s)" and "s1 = snd (createNode l s)"
      then have c: "createNode l s = (i, s1)" by simp
      from run t Assignment l c have "r = Some i" "s' = linkParent p i s1"
        by (auto simp: traverseNode.simps [of node p s] bindE_Inr)
      with leaf_ok [OF c] show ?thesis by blast
    next
      case Table
      with run t obtain l where l: "label_TableConstructorExpression node = Inr l"
        by (auto simp: traverseNode.simps [of node p s] bindE_Inr)
      define i s1 where "i = fst (createNode l s)" and "s1 = snd (createNode l s)"
      then have c: "createNode l s = (i, s1)" by simp
      from run t Table l c have "r = Some i" "s' = linkParent p i s1"
        by (auto simp: traverseNode.simps [of node p s] bindE_Inr)
      with leaf_ok [OF c] show ?thesis by blast
    next
      case Local
      with run t obtain l where l: "label_LocalStatement node = Inr l"
        by (auto simp: traverseNode.simps [of node p s] bindE_Inr)
      define i s1 where "i = fst (createNode l s)" and "s1 = snd (createNode l s)"
      then have c: "createNode l s = (i, s1)" by simp
      from run t Local l c have "r = Some i" "s' = linkParent p i s1"
        by (auto simp: traverseNode.simps [of node p s] bindE_Inr)
      with leaf_ok [OF c] show ?thesis by blast
    next
      case Default
      show ?thesis
      proof (cases "\<exists>xs. node = Arr xs")
        case True
        then obtain xs where xs: "node = Arr xs" by blast
        with run t Default have "forEachNode xs p s = Inr s'" "r = None"
          by (auto simp: traverseNode.simps [of "Arr xs" p s] bindE_Inr)
        with "1.IH"(9) [OF t Default Default(4) xs] show ?thesis by blast
      next
        case False
        with run t Default obtain l where l: "label_default t = Inr l"
          by (auto simp: traverseNode.simps [of node p s] bindE_Inr case_not_Arr)
        define i s1 where "i = fst (createNode l s)" and "s1 = snd (createNode l s)"
        then have c: "createNode l s = (i, s1)" by simp
        from run t Default False l c have "r = Some i" "s' = linkParent p i s1"
          by (auto simp: traverseNode.simps [of node p s] bindE_Inr case_not_Arr)
        with leaf_ok [OF c] show ?thesis by blast
      qed
    qed
  qed
next
  case (2 p s)
  then show ?case by (simp add: grows_refl)
next
  case (3 childNode rest p s)
  show ?case
  proof (intro allI impI)
    fix s'
    assume "forEachNode (childNode # rest) p s = Inr s'"
    then obtain r s1 where a: "traverseNode childNode p s = Inr (r, s1)"
      and b: "forEachNode rest p s1 = Inr s'"
      by (auto simp: bindE_Inr)
    from "3.IH"(1) a have "grows False p s s1" by blast
    moreover from "3.IH"(2) [OF a refl] b have "grows False p s1 s'" by blast
    ultimately show "grows False p s s'" by (rule grows_trans)
  qed
next
  case (4 i c s)
  then show ?case by (simp add: grows_refl)
next
  case (5 clause rest i c s)
  show ?case
  proof (intro allI impI)
    fix s'
    assume "forEachClause (clause # rest) i c s = Inr s'"
    then obtain b r s1 where g: "getp clause ''body'' = Inr b"
      and a: "traverseNode b (Some c) s = Inr (r, s1)"
      and rest: "forEachClause rest (i + 1) c
         (if 0 < i then s1\<lparr>edges := edges s1 @ [\<lparr>edge_from = c, edge_to = r,
              edge_condition = Some (if i = 1 then ''No'' else ''Else'')\<rparr>]\<rparr> else s1) = Inr s'"
      by (auto simp: bindE_Inr)
    let ?e = "\<lparr>edge_from = c, edge_to = r,
              edge_condition = Some (if i = 1 then ''No'' else ''Else'')\<rparr>"
    let ?s2 = "if 0 < i then s1\<lparr>edges := edges s1 @ [?e]\<rparr> else s1"
    from "5.IH"(1) [OF g] a
    have g1: "grows False (Some c) s s1" and rr: "r = None \<or> r \<in> Some ` fresh (nodeId s) (nodeId s1)"
      by blast+
    from g1 have g1': "grows True (Some c) s s1" by (rule grows_weaken)
    from rr have "newEdgeOK True (Some c) (nodeId s) (nodeId s1) ?e"
      by (auto simp: newEdgeOK_def)
    with g1' have "grows True (Some c) s ?s2"
      by (auto intro: grows_push)
    moreover from "5.IH"(2) [OF g a refl] rest have "grows True (Some c) ?s2 s'" by blast
    ultimately show "grows True (Some c) s s'" by (rule grows_trans)
  qed
qed

lemma run_from_initialState:
  assumes "traverseNode ast p initialState = Inr (r, s')"
  shows "map node_id (nodes s') = map nodeName [0..<nodeId s']"
  using traverse_grows(1) [of ast p initialState] assms
  by (auto simp: grows_def initialState_def)

lemma distinct_nodeNames: "distinct (map nodeName [lo..<hi])"
  by (simp add: distinct_map inj_on_def nodeName_eq_iff)

subsection \<open>The cases of the switch\<close>

lemma linkParent_state:
  "linkParent p i s =
     \<lparr>nodes = nodes s, edges = edges s @ parentLink p i, nodeId = nodeId s\<rparr>"
  by (cases s) (simp add: linkParent_def parentLink_def split: option.splits)

lemma traverse_Repeat:
  assumes "getp node ''type'' = Inr (Str ''RepeatStatement'')"
  shows "traverseNode node p s =
     bindE (getp node ''body'') (\<lambda>b.
       bindE (traverseNode b (Some (fst (createNode ''repeat'' s)))
                (linkParent p (fst (createNode ''repeat'' s)) (snd (createNode ''repeat'' s))))
         (\<lambda>(r, s3). bindE (label_until node) (\<lambda>l.
            Inr (Some (fst (createNode ''repeat'' s)),
                 (snd (createNode l s3))\<lparr>edges := edges (snd (createNode l s3)) @
                    [\<lparr>edge_from = fst (createNode ''repeat'' s),
                      edge_to = Some (fst (createNode l s3)), edge_condition = None\<rparr>]\<rparr>))))"
  using assms by (simp add: traverseNode.simps [of node p s] case_prod_beta Let_def)

lemma sanitize_repeat: "sanitizeLabel ''repeat'' = ''repeat''"
  by code_simp

lemma traverse_If:
  assumes "getp node ''type'' = Inr (Str ''IfStatement'')"
  shows "traverseNode node p s =
     bindE (label_IfStatement node) (\<lambda>l.
       bindE (getp node ''clauses'') (\<lambda>c. bindE (asArray c) (\<lambda>cs.
         bindE (forEachClause cs 0 (fst (createNode l s))
                  (linkParent p (fst (createNode l s)) (snd (createNode l s))))
           (\<lambda>s3. Inr (Some (fst (createNode l s)), s3)))))"
  using assms by (simp add: traverseNode.simps [of node p s] case_prod_beta Let_def)

lemma forEachClause_bodies:
  "list_all2 (\<lambda>a b. getp a ''body'' = getp b ''body'') cs cs' \<Longrightarrow>
   forEachClause cs i c s = forEachClause cs' i c s"
proof (induction arbitrary: i s rule: list_all2_induct)
  case Nil
  show ?case by simp
next
  case (Cons a as b bs)
  show ?case
  proof (cases "getp b ''body''")
    case (Inl e)
    with Cons.hyps show ?thesis by simp
  next
    case (Inr v)
    with Cons.hyps have "getp a ''body'' = Inr v" by simp
    with Inr Cons.IH show ?thesis
      by (cases "traverseNode v (Some c) s") (auto simp: case_prod_beta)
  qed
qed

lemma branchLabels_append [simp]:
  "branchLabels c (xs @ ys) = branchLabels c xs @ branchLabels c ys"
  by (simp add: branchLabels_def)

lemma body_edges_unlabelled:
  assumes "grows False (Some (nodeName k)) s s1" and "k < nodeId s"
    and "edges s1 = edges s @ es"
  shows "branchLabels (nodeName k) es = []"
proof -
  from assms(1,3) have "\<forall>e\<in>set es. newEdgeOK False (Some (nodeName k)) (nodeId s) (nodeId s1) e"
    by (auto simp: grows_def)
  moreover have "nodeName k \<notin> fresh (nodeId s) (nodeId s1)"
    using assms(2) by (auto simp: fresh_def nodeName_eq_iff)
  ultimately have "\<forall>e\<in>set es. \<not> (edge_from e = nodeName k \<and> edge_condition e \<noteq> None)"
    by (auto simp: newEdgeOK_def)
  then show ?thesis by (simp add: branchLabels_def filter_empty_conv)
qed

lemma forEachClause_labels:
  "forEachClause cs i (nodeName k) s = Inr s' \<Longrightarrow> k < nodeId s \<Longrightarrow>
   \<exists>es. edges s' = edges s @ es \<and>
     branchLabels (nodeName k) es =
       map (\<lambda>j. Some (if j = 1 then ''No'' else ''Else'')) [max 1 i..<i + length cs]"
proof (induction cs arbitrary: i s)
  case Nil
  then show ?case by (simp add: branchLabels_def)
next
  case (Cons clause rest)
  let ?c = "nodeName k"
  from Cons.prems(1) obtain b r s1 where g: "getp clause ''body'' = Inr b"
    and a: "traverseNode b (Some ?c) s = Inr (r, s1)"
    and rest: "forEachClause rest (i + 1) ?c
         (if 0 < i then s1\<lparr>edges := edges s1 @ [\<lparr>edge_from = ?c, edge_to = r,
              edge_condition = Some (if i = 1 then ''No'' else ''Else'')\<rparr>]\<rparr> else s1) = Inr s'"
    by (auto simp: bindE_Inr)
  let ?e = "\<lparr>edge_from = ?c, edge_to = r,
              edge_condition = Some (if i = 1 then ''No'' else ''Else'')\<rparr>"
  let ?s2 = "if 0 < i then s1\<lparr>edges := edges s1 @ [?e]\<rparr> else s1"
  from traverse_grows(1) [of b "Some ?c" s] a
  have g1: "grows False (Some ?c) s s1" by simp
  then obtain es1 where es1: "edges s1 = edges s @ es1" and le: "nodeId s \<le> nodeId s1"
    by (auto simp: grows_def)
  from body_edges_unlabelled [OF g1 Cons.prems(2) es1]
  have u: "branchLabels ?c es1 = []" .
  have k2: "k < nodeId ?s2" using le Cons.prems(2) by simp
  from Cons.IH [OF rest k2] obtain es2 where es2: "edges s' = edges ?s2 @ es2"
    and l2: "branchLabels ?c es2 =
       map (\<lambda>j. Some (if j = 1 then ''No'' else ''Else'')) [max 1 (i + 1)..<i + 1 + length rest]"
    by blast
  let ?f = "\<lambda>j::nat. Some (if j = 1 then ''No'' else ''Else'')"
  have iv2: "[max 1 (i + 1)..<i + 1 + length rest] = [Suc i..<Suc (i + length rest)]"
    by (simp add: max_def del: upt_Suc)
  show ?case
  proof (cases "0 < i")
    case True
    then have iv: "[max 1 i..<i + length (clause # rest)] = i # [Suc i..<Suc (i + length rest)]"
      by (simp add: max_def upt_conv_Cons del: upt_Suc)
    from True have "edges s' = edges s @ (es1 @ [?e] @ es2)" using es1 es2 by simp
    moreover have "branchLabels ?c (es1 @ [?e] @ es2) =
        map ?f [max 1 i..<i + length (clause # rest)]"
    proof -
      have one: "branchLabels ?c [?e] = [?f i]"
        by (simp add: branchLabels_def)
      have "branchLabels ?c (es1 @ [?e] @ es2) =
          branchLabels ?c es1 @ branchLabels ?c [?e] @ branchLabels ?c es2"
        by (simp only: branchLabels_append)
      also have "\<dots> = ?f i # map ?f [Suc i..<Suc (i + length rest)]"
        unfolding u one l2 iv2 by (simp only: append_Nil append_Cons)
      also have "\<dots> = map ?f [max 1 i..<i + length (clause # rest)]"
        unfolding iv by (simp only: list.map)
      finally show ?thesis .
    qed
    ultimately show ?thesis by blast
  next
    case False
    then have iv: "[max 1 i..<i + length (clause # rest)] = [Suc i..<Suc (i + length rest)]"
      by (simp add: max_def del: upt_Suc)
    from False have "edges s' = edges s @ (es1 @ es2)" using es1 es2 by simp
    moreover have "branchLabels ?c (es1 @ es2) = map ?f [max 1 i..<i + length (clause # rest)]"
      unfolding iv using u l2 iv2 by (simp del: upt_Suc)
    ultimately show ?thesis by blast
  qed
qed


lemma label_If_parts:
  assumes "label_IfStatement node = Inr l" and "getp node ''clauses'' = Inr (Arr cs)"
  shows "\<exists>c0 rest cond raw t. cs = c0 # rest \<and> getp c0 ''condition'' = Inr cond \<and>
           getp cond ''raw'' = Inr raw \<and> toStr raw = Inr t \<and> l = ''if '' @ t"
proof (cases cs)
  case Nil
  with assms show ?thesis by (simp add: label_IfStatement_def)
next
  case (Cons c0 rest)
  with assms show ?thesis by (auto simp: label_IfStatement_def bindE_Inr)
qed

text \<open>Every edge of a run leaves a node of the node list, and goes to a node of the node
  list unless it is an edge with a branch label, whose target may be \<^verbatim>\<open>null\<close>.\<close>

lemma edges_name_nodes_or_null:
  assumes "traverseNode ast None initialState = Inr (r, s')"
  shows "\<forall>e\<in>set (edges s').
           edge_from e \<in> set (map node_id (nodes s')) \<and>
           (case edge_to e of None \<Rightarrow> edge_condition e \<noteq> None
            | Some t \<Rightarrow> t \<in> set (map node_id (nodes s')))"
proof -
  from traverse_grows(1) [of ast None initialState] assms
  have g: "grows False None initialState s'" by simp
  from run_from_initialState [OF assms]
  have ids: "set (map node_id (nodes s')) = fresh 0 (nodeId s')"
    by (simp add: fresh_def)
  from g have "\<forall>e\<in>set (edges s'). newEdgeOK False None 0 (nodeId s') e"
    by (auto simp: grows_def initialState_def)
  then show ?thesis unfolding ids by (auto simp: newEdgeOK_def split: option.splits)
qed

subsection \<open>An invocation in a process\<close>

lemma generateMermaidIn_run:
  "generateMermaidIn ast h =
     bindE (traverseNode ast None initialState) (\<lambda>(r, s). Inr (render s, h @ [s]))"
  by (cases "traverseNode ast None initialState")
     (auto simp: generateMermaidIn_def traverseNodeAt_def initialState_def Let_def)

lemma generateMermaid0In_run:
  "generateMermaid0In ast h =
     bindE (traverseNode0 ast None initialState) (\<lambda>(r, s).
       Inr (''```mermaid'' @ [CHR 0x0A] @ render s @ ''```'', h @ [s]))"
  by (cases "traverseNode0 ast None initialState")
     (auto simp: generateMermaid0In_def traverseNode0At_def initialState_def Let_def)

subsection \<open>Labels whose texts are absent or strings\<close>






















section \<open>The claims\<close>

subsection \<open>C1: edges and the node list\<close>

text \<open>
  C1 says that every edge the traversal pushes names ids that are in the node list, and
  that no edge has a \<^verbatim>\<open>null\<close> target, also among the edges with a branch label drawn for
  the clauses of an \<^verbatim>\<open>IfStatement\<close> from index 1 on. The code does not keep this: on
  \<^verbatim>\<open>if x then return 1 else return 2 end\<close> the body of the \<^verbatim>\<open>else\<close> clause is an array, for
  which \<open>traverseNode\<close> returns \<^verbatim>\<open>null\<close>, and the edge labelled \<^verbatim>\<open>No\<close> is pushed with that
  target. The run ends with the three nodes \<^verbatim>\<open>node0\<close>, \<^verbatim>\<open>node1\<close>, \<^verbatim>\<open>node2\<close> and three
  edges, the last of which has \<^verbatim>\<open>null\<close> as its target, and the text returned has the line
  \<^verbatim>\<open>node0-->null;\<close>.
\<close>

theorem if_else_dangling_edge:
  "traverseNode ast_if_else None initialState = Inr (None, state_if_else) \<and>
   map node_id (nodes state_if_else) = [''node0'', ''node1'', ''node2''] \<and>
   map edge_to (edges state_if_else) = [Some ''node1'', Some ''node2'', None] \<and>
   generateMermaid ast_if_else =
     Inr (''graph TD;'' @ [CHR 0x0A] @
          ''  node0[if undefined];'' @ [CHR 0x0A] @
          ''  node1[return 1];'' @ [CHR 0x0A] @
          ''  node2[return 2];'' @ [CHR 0x0A] @
          ''  node0-->node1;'' @ [CHR 0x0A] @
          ''  node0-->node2;'' @ [CHR 0x0A] @
          ''  node0-->null;'' @ [CHR 0x0A])"
  by code_simp

subsection \<open>C2: the scenario of an if with an else\<close>

text \<open>
  C2 says that \<^verbatim>\<open>if x then return 1 else return 2 end\<close> gives three nodes labelled
  \<^verbatim>\<open>if x\<close>, \<^verbatim>\<open>return 1\<close>, \<^verbatim>\<open>return 2\<close> and exactly two edges, one without a label from
  the if node to the first return and one labelled \<^verbatim>\<open>No\<close> from the if node to the second
  return. The run ends in \<open>state_if_else\<close>, whose labels and whose edges are others.
\<close>

theorem if_else_scenario_counterexample:
  "traverseNode ast_if_else None initialState = Inr (None, state_if_else) \<and>
   map node_label (nodes state_if_else) \<noteq> [''if x'', ''return 1'', ''return 2''] \<and>
   edges state_if_else \<noteq>
     [\<lparr>edge_from = ''node0'', edge_to = Some ''node1'', edge_condition = None\<rparr>,
      \<lparr>edge_from = ''node0'', edge_to = Some ''node2'', edge_condition = Some ''No''\<rparr>]"
proof -
  have "traverseNode ast_if_else None initialState = Inr (None, state_if_else)"
    by code_simp
  then show ?thesis by (simp add: state_if_else_def)
qed

text \<open>
  C2 as amended: the traversal of \<^verbatim>\<open>if x then return 1 else return 2 end\<close> gives exactly
  three nodes \<^verbatim>\<open>node0\<close>, \<^verbatim>\<open>node1\<close>, \<^verbatim>\<open>node2\<close>, the last two labelled \<^verbatim>\<open>return 1\<close> and
  \<^verbatim>\<open>return 2\<close>, and exactly three edges, all from the if node \<^verbatim>\<open>node0\<close>: one without a
  label to each return node (the link to the parent that every statement of a clause body
  gets), then one with the label \<^verbatim>\<open>No\<close> for clause 1. The label of the if node and the
  target of the labelled edge are left open.
\<close>

theorem if_else_scenario:
  "\<exists>l t. traverseNode ast_if_else None initialState = Inr (None,
      \<lparr>nodes =
         [\<lparr>node_id = ''node0'', node_label = l\<rparr>,
          \<lparr>node_id = ''node1'', node_label = ''return 1''\<rparr>,
          \<lparr>node_id = ''node2'', node_label = ''return 2''\<rparr>],
       edges =
         [\<lparr>edge_from = ''node0'', edge_to = Some ''node1'', edge_condition = None\<rparr>,
          \<lparr>edge_from = ''node0'', edge_to = Some ''node2'', edge_condition = None\<rparr>,
          \<lparr>edge_from = ''node0'', edge_to = t, edge_condition = Some ''No''\<rparr>],
       nodeId = 3\<rparr>)"
proof -
  have "traverseNode ast_if_else None initialState = Inr (None, state_if_else)"
    by code_simp
  then show ?thesis unfolding state_if_else_def by blast
qed

subsection \<open>C3: a label whose source text is absent\<close>





subsection \<open>C4: the RepeatStatement\<close>

text \<open>
  C4 says that a \<^verbatim>\<open>RepeatStatement\<close> gets a node labelled \<^verbatim>\<open>repeat\<close>, linked from its parent
  if there is one, that its body is traversed with the repeat node as parent, and that a node
  labelled \<^verbatim>\<open>until\<close> and the condition is then created after the nodes of the body, with
  an edge from the repeat node. The code does not keep the label: it reads the property
  \<^verbatim>\<open>raw\<close> of the condition, which the parser sets on literals only. On
  \<^verbatim>\<open>while true do repeat break until x end\<close> the run ends with the four nodes
  \<^verbatim>\<open>while true\<close>, \<^verbatim>\<open>repeat\<close>, \<^verbatim>\<open>BreakStatement\<close> and \<^verbatim>\<open>until undefined\<close>, where C4 has
  \<^verbatim>\<open>until x\<close>; the edges are those of C4, from the parent \<^verbatim>\<open>node0\<close> to the repeat node
  \<^verbatim>\<open>node1\<close>, and from the repeat node to the node of the body and to the until node.
\<close>

theorem repeat_until_label_undefined:
  "traverseNode ast_while_repeat_x None initialState =
     Inr (None,
          \<lparr>nodes =
             [\<lparr>node_id = ''node0'', node_label = ''while true''\<rparr>,
              \<lparr>node_id = ''node1'', node_label = ''repeat''\<rparr>,
              \<lparr>node_id = ''node2'', node_label = ''BreakStatement''\<rparr>,
              \<lparr>node_id = ''node3'', node_label = ''until undefined''\<rparr>],
           edges =
             [\<lparr>edge_from = ''node0'', edge_to = Some ''node1'', edge_condition = None\<rparr>,
              \<lparr>edge_from = ''node1'', edge_to = Some ''node2'', edge_condition = None\<rparr>,
              \<lparr>edge_from = ''node1'', edge_to = Some ''node3'', edge_condition = None\<rparr>],
           nodeId = 4\<rparr>) \<and>
   generateMermaid ast_while_repeat_x =
     Inr (''graph TD;'' @ [CHR 0x0A] @
          ''  node0[while true];'' @ [CHR 0x0A] @
          ''  node1[repeat];'' @ [CHR 0x0A] @
          ''  node2[BreakStatement];'' @ [CHR 0x0A] @
          ''  node3[until undefined];'' @ [CHR 0x0A] @
          ''  node0-->node1;'' @ [CHR 0x0A] @
          ''  node1-->node2;'' @ [CHR 0x0A] @
          ''  node1-->node3;'' @ [CHR 0x0A])"
  by code_simp

text \<open>
  The rest of what C4 says holds of every \<^verbatim>\<open>RepeatStatement\<close> whose traversal returns. The
  traversal creates a node labelled \<^verbatim>\<open>repeat\<close>; it pushes the edge from the parent to this
  node if there is a parent, and no edge otherwise; it traverses the body with the repeat
  node as parent, from the state that has this node and this edge; then it creates the
  until node, after the nodes of the body, and pushes the edge from the repeat node to the
  until node; it returns the id of the repeat node. The label of the until node is
  \<^verbatim>\<open>until\<close> and the text of the property \<^verbatim>\<open>raw\<close> of the condition. The other variant, one
  node \<^verbatim>\<open>until <condition>\<close> around the body, does not occur: the first node a
  \<^verbatim>\<open>RepeatStatement\<close> creates is labelled \<^verbatim>\<open>repeat\<close>.
\<close>

lemma traverse_Repeat_policy:
  assumes "getp node ''type'' = Inr (Str ''RepeatStatement'')"
    and "traverseNode node parentNodeId s = Inr (r, s')"
  shows "\<exists>b rb s3 cond raw t ns es.
     r = Some (nodeName (nodeId s)) \<and>
     getp node ''body'' = Inr b \<and>
     traverseNode b (Some (nodeName (nodeId s)))
       \<lparr>nodes = nodes s @ [\<lparr>node_id = nodeName (nodeId s), node_label = ''repeat''\<rparr>],
        edges = edges s @ parentLink parentNodeId (nodeName (nodeId s)),
        nodeId = nodeId s + 1\<rparr>
       = Inr (rb, s3) \<and>
     nodes s3 = nodes s @ [\<lparr>node_id = nodeName (nodeId s), node_label = ''repeat''\<rparr>] @ ns \<and>
     edges s3 = edges s @ parentLink parentNodeId (nodeName (nodeId s)) @ es \<and>
     getp node ''condition'' = Inr cond \<and> getp cond ''raw'' = Inr raw \<and> toStr raw = Inr t \<and>
     nodes s' = nodes s @ [\<lparr>node_id = nodeName (nodeId s), node_label = ''repeat''\<rparr>] @ ns @
       [\<lparr>node_id = nodeName (nodeId s3), node_label = sanitizeLabel (''until '' @ t)\<rparr>] \<and>
     edges s' = edges s @ parentLink parentNodeId (nodeName (nodeId s)) @ es @
       [\<lparr>edge_from = nodeName (nodeId s), edge_to = Some (nodeName (nodeId s3)),
         edge_condition = None\<rparr>] \<and>
     nodeId s' = nodeId s3 + 1"
proof -
  let ?i = "nodeName (nodeId s)"
  let ?s1 = "s\<lparr>nodeId := nodeId s + 1,
             nodes := nodes s @ [\<lparr>node_id = ?i, node_label = ''repeat''\<rparr>]\<rparr>"
  let ?s2 = "\<lparr>nodes = nodes s @ [\<lparr>node_id = ?i, node_label = ''repeat''\<rparr>],
        edges = edges s @ parentLink parentNodeId ?i, nodeId = nodeId s + 1\<rparr>"
  have c: "createNode ''repeat'' s = (?i, ?s1)"
    by (simp add: createNode_def Let_def sanitize_repeat)
  have s2: "linkParent parentNodeId ?i ?s1 = ?s2"
    by (simp add: linkParent_state)
  from assms obtain b v l where b: "getp node ''body'' = Inr b"
    and tr0: "traverseNode b (Some ?i) (linkParent parentNodeId ?i ?s1) = Inr v"
    and l: "label_until node = Inr l"
    and r: "r = Some ?i"
    and s': "s' = (snd (createNode l (snd v)))\<lparr>edges := edges (snd (createNode l (snd v))) @
           [\<lparr>edge_from = ?i, edge_to = Some (fst (createNode l (snd v))),
             edge_condition = None\<rparr>]\<rparr>"
    by (auto simp: traverse_Repeat c bindE_Inr case_prod_beta)
  from tr0 have tr: "traverseNode b (Some ?i) ?s2 = Inr v" unfolding s2 .
  obtain rb s3 where v: "v = (rb, s3)" by (cases v)
  from l obtain cond raw t where cond: "getp node ''condition'' = Inr cond"
    and raw: "getp cond ''raw'' = Inr raw" and t: "toStr raw = Inr t"
    and l': "l = ''until '' @ t"
    by (auto simp: label_until_def bindE_Inr)
  from traverse_grows(1) [of b "Some ?i" ?s2] tr v
  have "grows False (Some ?i) ?s2 s3" by simp
  then obtain ns es where ns: "nodes s3 = nodes ?s2 @ ns"
    and es: "edges s3 = edges ?s2 @ es"
    by (auto simp: grows_def)
  have "nodes s3 = nodes s @ [\<lparr>node_id = ?i, node_label = ''repeat''\<rparr>] @ ns"
    using ns by simp
  moreover have "edges s3 = edges s @ parentLink parentNodeId ?i @ es"
    using es by simp
  moreover have "nodes s' = nodes s @ [\<lparr>node_id = ?i, node_label = ''repeat''\<rparr>] @ ns @
       [\<lparr>node_id = nodeName (nodeId s3), node_label = sanitizeLabel (''until '' @ t)\<rparr>]"
    using ns s' v l' by (simp add: createNode_def Let_def)
  moreover have "edges s' = edges s @ parentLink parentNodeId ?i @ es @
       [\<lparr>edge_from = ?i, edge_to = Some (nodeName (nodeId s3)), edge_condition = None\<rparr>]"
    using es s' v by (simp add: createNode_def Let_def)
  moreover have "nodeId s' = nodeId s3 + 1"
    using s' v by (simp add: createNode_def Let_def)
  ultimately show ?thesis using r b tr v cond raw t by blast
qed

text \<open>The \<^verbatim>\<open>RepeatStatement\<close> of the input above, below its parent \<^verbatim>\<open>node0\<close>: the edge from
  the parent, the nodes and edges of the body, the until node and its edge.\<close>

lemma traverse_Repeat_policy_example:
  "getp ast_repeat_x ''type'' = Inr (Str ''RepeatStatement'') \<and>
   traverseNode ast_repeat_x (Some ''node0'') state_while = Inr (Some ''node1'', state_while_repeat_x) \<and>
   parentLink (Some ''node0'') ''node1'' =
     [\<lparr>edge_from = ''node0'', edge_to = Some ''node1'', edge_condition = None\<rparr>] \<and>
   (\<exists>b rb s3 cond raw t ns es.
     getp ast_repeat_x ''body'' = Inr b \<and>
     traverseNode b (Some ''node1'')
       \<lparr>nodes = nodes state_while @ [\<lparr>node_id = ''node1'', node_label = ''repeat''\<rparr>],
        edges = edges state_while @ parentLink (Some ''node0'') ''node1'',
        nodeId = nodeId state_while + 1\<rparr>
       = Inr (rb, s3) \<and>
     getp ast_repeat_x ''condition'' = Inr cond \<and> getp cond ''raw'' = Inr raw \<and>
     toStr raw = Inr t \<and>
     nodes state_while_repeat_x =
       nodes state_while @ [\<lparr>node_id = ''node1'', node_label = ''repeat''\<rparr>] @ ns @
       [\<lparr>node_id = nodeName (nodeId s3), node_label = sanitizeLabel (''until '' @ t)\<rparr>] \<and>
     edges state_while_repeat_x =
       edges state_while @ parentLink (Some ''node0'') ''node1'' @ es @
       [\<lparr>edge_from = ''node1'', edge_to = Some (nodeName (nodeId s3)),
         edge_condition = None\<rparr>])"
proof -
  have t: "getp ast_repeat_x ''type'' = Inr (Str ''RepeatStatement'')"
    by (simp add: ast_repeat_x_def)
  have run: "traverseNode ast_repeat_x (Some ''node0'') state_while =
     Inr (Some ''node1'', state_while_repeat_x)"
    by code_simp
  have i: "nodeName (nodeId state_while) = ''node1''" by code_simp
  have p: "parentLink (Some ''node0'') ''node1'' =
     [\<lparr>edge_from = ''node0'', edge_to = Some ''node1'', edge_condition = None\<rparr>]"
    by (simp add: parentLink_def)
  from traverse_Repeat_policy [OF t run, unfolded i] t run p show ?thesis by blast
qed


text \<open>With a literal as its condition, as in \<^verbatim>\<open>repeat break until true\<close>, the until node has
  the text of the condition.\<close>

lemma traverse_Repeat_literal:
  "traverseNode ast_repeat None initialState = Inr (Some ''node0'', state_repeat)"
  by code_simp


subsection \<open>C5: the files a run writes\<close>

text \<open>
  C5 says that a successful run writes one file, of a fixed name, and no other. A run of
  \<^verbatim>\<open>main\<close> of \<^verbatim>\<open>src/ltm.js\<close> on an empty source file, in a file system that holds only this
  file, returns and has then written two files that were not there, \<^verbatim>\<open>output.mermaid\<close> and
  \<^verbatim>\<open>output.mermaid.md\<close>.
\<close>

theorem main_writes_two_files_counterexample:
  "(case main (\<lambda>luaCode. Inr ast_empty_chunk) [''node'', ''ltm.js'', ''a.lua''] world_one_file of
      Returned w' \<Rightarrow>
        files world_one_file ''output.mermaid'' = None \<and>
        files w' ''output.mermaid'' = Some (''graph TD;'' @ [CHR 0x0A]) \<and>
        files world_one_file ''output.mermaid.md'' = None \<and>
        files w' ''output.mermaid.md'' =
          Some (''```mermaid'' @ [CHR 0x0A] @ ''graph TD;'' @ [CHR 0x0A] @ [CHR 0x0A] @ ''```'')
    | Exited n w' \<Rightarrow> False
    | Thrown e w' \<Rightarrow> False)"
  by code_simp

text \<open>
  C5 as amended: a successful run of \<^verbatim>\<open>main\<close> of \<^verbatim>\<open>src/ltm.js\<close> writes exactly two files,
  of fixed names: \<^verbatim>\<open>output.mermaid\<close> with the text of the diagram and \<^verbatim>\<open>output.mermaid.md\<close>
  with the same text inside a fenced \<^verbatim>\<open>mermaid\<close> code block; a successful run of \<^verbatim>\<open>main\<close> of
  the second copy writes exactly one, \<^verbatim>\<open>output.mermaid.md\<close>. No other file is created or
  changed.
\<close>

theorem main_writes_fixed_files:
  "(main parse argv w = Returned w' \<longrightarrow>
      (\<exists>mermaidCode.
         files w' = (files w)
           (''output.mermaid'' \<mapsto> mermaidCode,
            ''output.mermaid.md'' \<mapsto>
               ''```mermaid'' @ [CHR 0x0A] @ mermaidCode @ [CHR 0x0A] @ ''```'')) \<and>
      (\<forall>f. f \<noteq> ''output.mermaid'' \<longrightarrow> f \<noteq> ''output.mermaid.md'' \<longrightarrow> files w' f = files w f)) \<and>
   (main0 parse argv w = Returned w0 \<longrightarrow>
      (\<exists>mermaidCode. files w0 = (files w)(''output.mermaid.md'' \<mapsto> mermaidCode)) \<and>
      (\<forall>f. f \<noteq> ''output.mermaid.md'' \<longrightarrow> files w0 f = files w f))"
  by (auto simp: main_def main0_def Let_def split: option.splits if_splits sum.splits)

theorem main_writes_fixed_files_witness:
  "main (\<lambda>luaCode. Inr ast_empty_chunk) [''node'', ''ltm.js'', ''a.lua''] world_one_file =
     Returned (world_one_file\<lparr>files := (files world_one_file)
         (''output.mermaid'' \<mapsto> ''graph TD;'' @ [CHR 0x0A],
          ''output.mermaid.md'' \<mapsto>
             ''```mermaid'' @ [CHR 0x0A] @ ''graph TD;'' @ [CHR 0x0A] @ [CHR 0x0A] @ ''```''),
       stdout := [''Mermaid diagram saved to output.mermaid'']\<rparr>) \<and>
   main0 (\<lambda>luaCode. Inr ast_empty_chunk) [''node'', ''ltm.js'', ''a.lua''] world_one_file =
     Returned (world_one_file\<lparr>files := (files world_one_file)
         (''output.mermaid.md'' \<mapsto>
             ''```mermaid'' @ [CHR 0x0A] @ ''graph TD;'' @ [CHR 0x0A] @ ''```''),
       stdout := [''Mermaid diagram saved to output.mermaid.md'']\<rparr>) \<and>
   files (world_one_file\<lparr>files := (files world_one_file)
         (''output.mermaid'' \<mapsto> ''graph TD;'' @ [CHR 0x0A],
          ''output.mermaid.md'' \<mapsto>
             ''```mermaid'' @ [CHR 0x0A] @ ''graph TD;'' @ [CHR 0x0A] @ [CHR 0x0A] @ ''```''),
       stdout := [''Mermaid diagram saved to output.mermaid'']\<rparr>) ''a.lua'' =
     files world_one_file ''a.lua'' \<and>
   files (world_one_file\<lparr>files := (files world_one_file)
         (''output.mermaid.md'' \<mapsto>
             ''```mermaid'' @ [CHR 0x0A] @ ''graph TD;'' @ [CHR 0x0A] @ ''```''),
       stdout := [''Mermaid diagram saved to output.mermaid.md'']\<rparr>) ''a.lua'' =
     files world_one_file ''a.lua''"
proof -
  have g: "generateMermaid ast_empty_chunk = Inr (''graph TD;'' @ [CHR 0x0A])"
    by code_simp
  have g0: "generateMermaid0 ast_empty_chunk =
      Inr (''```mermaid'' @ [CHR 0x0A] @ ''graph TD;'' @ [CHR 0x0A] @ ''```'')"
    by code_simp
  have m: "main (\<lambda>luaCode. Inr ast_empty_chunk) [''node'', ''ltm.js'', ''a.lua''] world_one_file =
     Returned (world_one_file\<lparr>files := (files world_one_file)
         (''output.mermaid'' \<mapsto> ''graph TD;'' @ [CHR 0x0A],
          ''output.mermaid.md'' \<mapsto>
             ''```mermaid'' @ [CHR 0x0A] @ ''graph TD;'' @ [CHR 0x0A] @ [CHR 0x0A] @ ''```''),
       stdout := [''Mermaid diagram saved to output.mermaid'']\<rparr>)"
    by (simp add: main_def Let_def parseLuaFile_def world_one_file_def g)
  have m0: "main0 (\<lambda>luaCode. Inr ast_empty_chunk) [''node'', ''ltm.js'', ''a.lua''] world_one_file =
     Returned (world_one_file\<lparr>files := (files world_one_file)
         (''output.mermaid.md'' \<mapsto>
             ''```mermaid'' @ [CHR 0x0A] @ ''graph TD;'' @ [CHR 0x0A] @ ''```''),
       stdout := [''Mermaid diagram saved to output.mermaid.md'']\<rparr>)"
    by (simp add: main0_def Let_def parseLuaFile_def world_one_file_def g0)
  from main_writes_fixed_files [of "\<lambda>luaCode. Inr ast_empty_chunk"
      "[''node'', ''ltm.js'', ''a.lua'']" world_one_file] m m0
  show ?thesis by simp
qed


subsection \<open>C6: the IfStatement\<close>

text \<open>
  C6 says that an \<^verbatim>\<open>IfStatement\<close> creates exactly one condition node, labelled \<^verbatim>\<open>if\<close> and
  the source text of the condition of the first clause, that the conditions of the later
  clauses are not rendered, and that the branch edges are labelled \<^verbatim>\<open>No\<close> at index 1 and
  \<^verbatim>\<open>Else\<close> above. The code does not keep the label: it reads the property \<^verbatim>\<open>raw\<close> of the
  condition, which the parser sets on literals only. On
  \<^verbatim>\<open>if a then return 1 elseif b then return 2 else return 3 end\<close> the condition node is
  labelled \<^verbatim>\<open>if undefined\<close>, where C6 has \<^verbatim>\<open>if a\<close>; the other nodes are those of the three
  bodies, and the two edges with a branch label are labelled \<^verbatim>\<open>No\<close> and \<^verbatim>\<open>Else\<close>.
\<close>

theorem if_label_undefined:
  "traverseNode ast_if_a_elseif_b None initialState =
     Inr (None,
          \<lparr>nodes =
             [\<lparr>node_id = ''node0'', node_label = ''if undefined''\<rparr>,
              \<lparr>node_id = ''node1'', node_label = ''return 1''\<rparr>,
              \<lparr>node_id = ''node2'', node_label = ''return 2''\<rparr>,
              \<lparr>node_id = ''node3'', node_label = ''return 3''\<rparr>],
           edges =
             [\<lparr>edge_from = ''node0'', edge_to = Some ''node1'', edge_condition = None\<rparr>,
              \<lparr>edge_from = ''node0'', edge_to = Some ''node2'', edge_condition = None\<rparr>,
              \<lparr>edge_from = ''node0'', edge_to = None, edge_condition = Some ''No''\<rparr>,
              \<lparr>edge_from = ''node0'', edge_to = Some ''node3'', edge_condition = None\<rparr>,
              \<lparr>edge_from = ''node0'', edge_to = None, edge_condition = Some ''Else''\<rparr>],
           nodeId = 4\<rparr>) \<and>
   generateMermaid ast_if_a_elseif_b =
     Inr (''graph TD;'' @ [CHR 0x0A] @
          ''  node0[if undefined];'' @ [CHR 0x0A] @
          ''  node1[return 1];'' @ [CHR 0x0A] @
          ''  node2[return 2];'' @ [CHR 0x0A] @
          ''  node3[return 3];'' @ [CHR 0x0A] @
          ''  node0-->node1;'' @ [CHR 0x0A] @
          ''  node0-->node2;'' @ [CHR 0x0A] @
          ''  node0-->null;'' @ [CHR 0x0A] @
          ''  node0-->node3;'' @ [CHR 0x0A] @
          ''  node0-->null;'' @ [CHR 0x0A])"
  by code_simp

text \<open>
  The rest of what C6 says holds of every \<^verbatim>\<open>IfStatement\<close> whose traversal returns. The
  traversal creates one condition node, labelled \<^verbatim>\<open>if\<close> and the text of the property
  \<^verbatim>\<open>raw\<close> of the condition of the first clause, and pushes the edge from the parent to it
  if there is a parent; what follows is the loop over the clauses, which traverses the
  bodies and creates no node of its own. The edges with a branch label that leave the
  condition node are, in order, one per clause from index 1 on, labelled \<^verbatim>\<open>No\<close> at index 1
  and \<^verbatim>\<open>Else\<close> above. The conditions of the later clauses are not rendered: an
  \<^verbatim>\<open>IfStatement\<close> whose first condition has the same \<^verbatim>\<open>raw\<close> and whose clauses have the
  same bodies gives the same result, whatever its other conditions.
\<close>

lemma traverse_If_policy:
  assumes "getp node ''type'' = Inr (Str ''IfStatement'')"
    and "traverseNode node parentNodeId s = Inr (r, s')"
  shows "\<exists>c0 rest cond raw t s2 es.
     getp node ''clauses'' = Inr (Arr (c0 # rest)) \<and>
     getp c0 ''condition'' = Inr cond \<and> getp cond ''raw'' = Inr raw \<and> toStr raw = Inr t \<and>
     r = Some (nodeName (nodeId s)) \<and>
     s2 = \<lparr>nodes = nodes s @ [\<lparr>node_id = nodeName (nodeId s),
                                 node_label = sanitizeLabel (''if '' @ t)\<rparr>],
           edges = edges s @ parentLink parentNodeId (nodeName (nodeId s)),
           nodeId = nodeId s + 1\<rparr> \<and>
     forEachClause (c0 # rest) 0 (nodeName (nodeId s)) s2 = Inr s' \<and>
     nodes s' ! length (nodes s) =
       \<lparr>node_id = nodeName (nodeId s), node_label = sanitizeLabel (''if '' @ t)\<rparr> \<and>
     edges s' = edges s2 @ es \<and>
     branchLabels (nodeName (nodeId s)) es =
       map (\<lambda>j. Some (if j = 1 then ''No'' else ''Else'')) [1..<length (c0 # rest)] \<and>
     (\<forall>node' c0' rest' cond'.
        getp node' ''type'' = Inr (Str ''IfStatement'') \<longrightarrow>
        getp node' ''clauses'' = Inr (Arr (c0' # rest')) \<longrightarrow>
        getp c0' ''condition'' = Inr cond' \<longrightarrow> getp cond' ''raw'' = Inr raw \<longrightarrow>
        list_all2 (\<lambda>a b. getp a ''body'' = getp b ''body'') (c0 # rest) (c0' # rest') \<longrightarrow>
        traverseNode node' parentNodeId s = Inr (r, s'))"
proof -
  let ?i = "nodeName (nodeId s)"
  from assms obtain l cl cs where l: "label_IfStatement node = Inr l"
    and cl: "getp node ''clauses'' = Inr cl" and cs: "asArray cl = Inr cs"
    and loop: "forEachClause cs 0 (fst (createNode l s))
         (linkParent parentNodeId (fst (createNode l s)) (snd (createNode l s))) = Inr s'"
    and r: "r = Some (fst (createNode l s))"
    by (auto simp: traverse_If bindE_Inr)
  from cs have cl': "cl = Arr cs" by (cases cl) auto
  from label_If_parts [OF l cl [unfolded cl']] obtain c0 rest cond raw t where
    cs': "cs = c0 # rest" and cond: "getp c0 ''condition'' = Inr cond"
    and raw: "getp cond ''raw'' = Inr raw" and t: "toStr raw = Inr t"
    and l': "l = ''if '' @ t"
    by blast
  let ?n = "\<lparr>node_id = ?i, node_label = sanitizeLabel (''if '' @ t)\<rparr>"
  define s2 where "s2 = linkParent parentNodeId ?i (snd (createNode l s))"
  have i: "fst (createNode l s) = ?i" by (simp add: createNode_def Let_def)
  have s2': "s2 = \<lparr>nodes = nodes s @ [?n], edges = edges s @ parentLink parentNodeId ?i,
                   nodeId = nodeId s + 1\<rparr>"
    by (simp add: s2_def linkParent_state createNode_def Let_def l')
  have n2: "nodes s2 = nodes s @ [?n]" by (simp add: s2')
  have id2: "nodeId s2 = Suc (nodeId s)" by (simp add: s2')
  from loop have loop': "forEachClause (c0 # rest) 0 ?i s2 = Inr s'"
    by (simp add: i s2_def cs')
  from traverse_grows(3) [of "c0 # rest" 0 ?i s2] loop'
  have "grows True (Some ?i) s2 s'" by simp
  then obtain ns where "nodes s' = nodes s2 @ ns" by (auto simp: grows_def)
  with n2 have nth: "nodes s' ! length (nodes s) = ?n" by simp
  from forEachClause_labels [OF loop'] id2 obtain es where es: "edges s' = edges s2 @ es"
    and lab: "branchLabels ?i es =
       map (\<lambda>j. Some (if j = 1 then ''No'' else ''Else'')) [max 1 0..<0 + length (c0 # rest)]"
    by auto
  from lab have lab': "branchLabels ?i es =
       map (\<lambda>j. Some (if j = 1 then ''No'' else ''Else'')) [1..<length (c0 # rest)]"
    by (simp del: upt_Suc)
  have ni: "traverseNode node' parentNodeId s = Inr (r, s')"
    if t': "getp node' ''type'' = Inr (Str ''IfStatement'')"
      and c': "getp node' ''clauses'' = Inr (Arr (c0' # rest'))"
      and cond': "getp c0' ''condition'' = Inr cond'" and raw': "getp cond' ''raw'' = Inr raw"
      and same: "list_all2 (\<lambda>a b. getp a ''body'' = getp b ''body'') (c0 # rest) (c0' # rest')"
    for node' c0' rest' cond'
  proof -
    have "label_IfStatement node' = Inr l"
      using c' cond' raw' t by (simp add: label_IfStatement_def l')
    moreover have "forEachClause (c0' # rest') 0 ?i s2 = Inr s'"
      using forEachClause_bodies [OF same, of 0 ?i s2] loop' by simp
    ultimately show ?thesis
      using t' c' r by (simp add: traverse_If i s2_def)
  qed
  from cl cl' cs' have "getp node ''clauses'' = Inr (Arr (c0 # rest))" by simp
  with cond raw t r i s2' loop' nth es lab' ni show ?thesis by blast
qed

text \<open>The \<^verbatim>\<open>IfStatement\<close> of the input above, below a parent \<^verbatim>\<open>node0\<close>: the edge from the
  parent, the condition node, the branch labels; and the same result with another condition
  in the \<^verbatim>\<open>elseif\<close>.\<close>

lemma traverse_If_policy_example:
  "getp (ast_if_a_elseif (ast_identifier ''b'')) ''type'' = Inr (Str ''IfStatement'') \<and>
   traverseNode (ast_if_a_elseif (ast_identifier ''b'')) (Some ''node0'') state_while =
     Inr (Some ''node1'', state_while_if) \<and>
   parentLink (Some ''node0'') ''node1'' =
     [\<lparr>edge_from = ''node0'', edge_to = Some ''node1'', edge_condition = None\<rparr>] \<and>
   nodes state_while_if ! length (nodes state_while) =
     \<lparr>node_id = ''node1'', node_label = ''if undefined''\<rparr> \<and>
   branchLabels ''node1'' (edges state_while_if) = [Some ''No'', Some ''Else''] \<and>
   traverseNode (ast_if_a_elseif (ast_bool ''true'')) (Some ''node0'') state_while =
     Inr (Some ''node1'', state_while_if)"
proof -
  let ?A = "ast_if_a_elseif (ast_identifier ''b'')"
  let ?A' = "ast_if_a_elseif (ast_bool ''true'')"
  have t: "getp ?A ''type'' = Inr (Str ''IfStatement'')"
    by (simp add: ast_if_a_elseif_def)
  have run: "traverseNode ?A (Some ''node0'') state_while = Inr (Some ''node1'', state_while_if)"
    by code_simp
  from traverse_If_policy [OF t run]
  obtain c0 rest cond raw where
    cl: "getp ?A ''clauses'' = Inr (Arr (c0 # rest))"
    and cond: "getp c0 ''condition'' = Inr cond" and raw: "getp cond ''raw'' = Inr raw"
    and ni: "\<And>node' c0' rest' cond'.
        getp node' ''type'' = Inr (Str ''IfStatement'') \<Longrightarrow>
        getp node' ''clauses'' = Inr (Arr (c0' # rest')) \<Longrightarrow>
        getp c0' ''condition'' = Inr cond' \<Longrightarrow> getp cond' ''raw'' = Inr raw \<Longrightarrow>
        list_all2 (\<lambda>a b. getp a ''body'' = getp b ''body'') (c0 # rest) (c0' # rest') \<Longrightarrow>
        traverseNode node' (Some ''node0'') state_while = Inr (Some ''node1'', state_while_if)"
    by blast
  from cl have c0: "c0 = Obj [(''type'', Str ''IfClause''), (''condition'', ast_identifier ''a''),
                  (''body'', Arr [ast_return ''1''])]"
    and rest: "rest = [Obj [(''type'', Str ''ElseifClause''), (''condition'', ast_identifier ''b''),
                  (''body'', Arr [ast_return ''2''])],
             Obj [(''type'', Str ''ElseClause''), (''body'', Arr [ast_return ''3''])]]"
    by (simp_all add: ast_if_a_elseif_def)
  from cond raw have raw': "raw = Undefined"
    by (auto simp: c0 ast_identifier_def)
  have "traverseNode ?A' (Some ''node0'') state_while = Inr (Some ''node1'', state_while_if)"
    by (rule ni [of _ c0 "[Obj [(''type'', Str ''ElseifClause''), (''condition'', ast_bool ''true''),
                  (''body'', Arr [ast_return ''2''])],
             Obj [(''type'', Str ''ElseClause''), (''body'', Arr [ast_return ''3''])]]"
             "ast_identifier ''a''"])
       (simp_all add: ast_if_a_elseif_def c0 rest raw' ast_identifier_def)
  moreover have "nodes state_while_if ! length (nodes state_while) =
     \<lparr>node_id = ''node1'', node_label = ''if undefined''\<rparr>"
    by (simp add: state_while_if_def state_while_def)
  moreover have "branchLabels ''node1'' (edges state_while_if) = [Some ''No'', Some ''Else'']"
    by (simp add: state_while_if_def branchLabels_def)
  moreover have "parentLink (Some ''node0'') ''node1'' =
     [\<lparr>edge_from = ''node0'', edge_to = Some ''node1'', edge_condition = None\<rparr>]"
    by (simp add: parentLink_def)
  ultimately show ?thesis using t run by simp
qed


text \<open>With a literal as its first condition, as in
  \<^verbatim>\<open>if true then return 1 elseif false then return 2 else return 3 end\<close>, the condition node
  has the text of the condition.\<close>

lemma traverse_If_literal:
  "traverseNode (ast_if_elseif_else (ast_bool ''false'')) None initialState =
     Inr (Some ''node0'', state_if_elseif_else)"
  by code_simp


subsection \<open>C7: sanitizeLabel\<close>

text \<open>
  C7: \<open>sanitizeLabel\<close> is a total function of its argument alone, it is idempotent,
  \<open>sanitizeLabel (sanitizeLabel s) = sanitizeLabel s\<close> for every string \<open>s\<close>, and every
  character of its result is in the class \<^verbatim>\<open>[A-Za-z0-9_ ]\<close>.
\<close>

theorem sanitizeLabel_idempotent:
  "sanitizeLabel (sanitizeLabel s) = sanitizeLabel s \<and>
   list_all allowedChar (sanitizeLabel s)"
  by (auto simp: sanitizeLabel_def list_all_iff allowedChar_underscore)

theorem sanitizeLabel_idempotent_witness:
  "sanitizeLabel ''if a.b[1] > {x}'' = ''if a_b_1_ _ _x_'' \<and>
   sanitizeLabel ''if a_b_1_ _ _x_'' = ''if a_b_1_ _ _x_'' \<and>
   list_all allowedChar ''if a_b_1_ _ _x_''"
proof -
  have e: "sanitizeLabel ''if a.b[1] > {x}'' = ''if a_b_1_ _ _x_''"
    by code_simp
  from sanitizeLabel_idempotent [of "''if a.b[1] > {x}''"] show ?thesis
    unfolding e by simp
qed

subsection \<open>C8: the ids of one run\<close>



subsection \<open>C9: an array returns null\<close>

text \<open>
  C9: for an input that is an array of nodes \<open>traverseNode\<close> returns \<^verbatim>\<open>null\<close>, also when
  the array is not empty and its elements create nodes; what the call does is the loop over
  the elements, with the same parent.
\<close>

theorem array_returns_null:
  "traverseNode (Arr childNodes) parentNodeId s = Inr (r, s') \<Longrightarrow>
   r = None \<and> forEachNode childNodes parentNodeId s = Inr s'"
  by (auto simp: traverseNode.simps [of "Arr childNodes" parentNodeId s] bindE_Inr)

theorem array_returns_null_witness:
  "traverseNode (Arr [ast_return ''1'', ast_return ''2'']) None initialState =
     Inr (None, \<lparr>nodes = [\<lparr>node_id = ''node0'', node_label = ''return 1''\<rparr>,
                          \<lparr>node_id = ''node1'', node_label = ''return 2''\<rparr>],
                 edges = [], nodeId = 2\<rparr>) \<and>
   (None :: string option) = None \<and>
   forEachNode [ast_return ''1'', ast_return ''2''] None initialState =
     Inr \<lparr>nodes = [\<lparr>node_id = ''node0'', node_label = ''return 1''\<rparr>,
                   \<lparr>node_id = ''node1'', node_label = ''return 2''\<rparr>],
          edges = [], nodeId = 2\<rparr>"
proof -
  have run: "traverseNode (Arr [ast_return ''1'', ast_return ''2'']) None initialState =
     Inr (None, \<lparr>nodes = [\<lparr>node_id = ''node0'', node_label = ''return 1''\<rparr>,
                          \<lparr>node_id = ''node1'', node_label = ''return 2''\<rparr>],
                 edges = [], nodeId = 2\<rparr>)"
    by code_simp
  from array_returns_null [OF run] run show ?thesis by simp
qed

subsection \<open>C10: one call of generateMermaid and the next\<close>

text \<open>
  C10: \<open>generateMermaid\<close> is deterministic and keeps nothing from one invocation to the
  next. Whatever the invocations before have left in the process, \<open>h1\<close> or \<open>h2\<close>, an
  invocation on the same tree returns the same, an equal text or an equal error, namely
  what \<open>generateMermaid\<close> gives from the empty node list, the empty edge list and the counter
  0. An invocation that returns has allocated one record and left those of the invocations
  before as they were; its record is the state the traversal reaches from the empty lists and
  the counter 0, the text it returns is the rendering of that state, and the ids in it are
  \<^verbatim>\<open>node0\<close>, \<^verbatim>\<open>node1\<close>, ... from 0 on. The next invocation on the same tree, in the process
  as this one has left it, returns the same text.
\<close>

theorem generateMermaid_keeps_no_state:
  "map_sum id fst (generateMermaidIn ast h1) = map_sum id fst (generateMermaidIn ast h2) \<and>
   map_sum id fst (generateMermaidIn ast h1) = generateMermaid ast \<and>
   (\<forall>out h'. generateMermaidIn ast h1 = Inr (out, h') \<longrightarrow>
      (\<exists>r s. traverseNode ast None \<lparr>nodes = [], edges = [], nodeId = 0\<rparr> = Inr (r, s) \<and>
             h' = h1 @ [s] \<and> out = render s \<and>
             map node_id (nodes s) = map nodeName [0..<length (nodes s)] \<and>
             nodeId s = length (nodes s) \<and>
             generateMermaidIn ast h' = Inr (out, h' @ [s])))"
proof -
  have g: "map_sum id fst (generateMermaidIn ast h) = generateMermaid ast" for h
    by (cases "traverseNode ast None initialState")
       (auto simp: generateMermaidIn_run generateMermaid_def)
  have "\<exists>r s. traverseNode ast None \<lparr>nodes = [], edges = [], nodeId = 0\<rparr> = Inr (r, s) \<and>
             h' = h1 @ [s] \<and> out = render s \<and>
             map node_id (nodes s) = map nodeName [0..<length (nodes s)] \<and>
             nodeId s = length (nodes s) \<and>
             generateMermaidIn ast h' = Inr (out, h' @ [s])"
    if "generateMermaidIn ast h1 = Inr (out, h')" for out h'
  proof -
    from that obtain r s where run: "traverseNode ast None initialState = Inr (r, s)"
      and out: "out = render s" and h': "h' = h1 @ [s]"
      by (auto simp: generateMermaidIn_run bindE_Inr)
    from run_from_initialState [OF run]
    have ids: "map node_id (nodes s) = map nodeName [0..<nodeId s]" .
    then have "length (map node_id (nodes s)) = length (map nodeName [0..<nodeId s])"
      by simp
    then have len: "nodeId s = length (nodes s)" by simp
    have "generateMermaidIn ast h' = Inr (out, h' @ [s])"
      by (simp add: generateMermaidIn_run run out)
    with ids len run out h' show ?thesis by (simp add: initialState_def)
  qed
  with g [of h1] g [of h2] show ?thesis by simp
qed

theorem generateMermaid_keeps_no_state_witness:
  "generateMermaidIn ast_if_else [state_while_repeat_x] =
     Inr (render state_if_else, [state_while_repeat_x, state_if_else]) \<and>
   generateMermaidIn ast_if_else [state_while_repeat_x, state_if_else] =
     Inr (render state_if_else, [state_while_repeat_x, state_if_else, state_if_else]) \<and>
   map_sum id fst (generateMermaidIn ast_if_else []) = Inr (render state_if_else) \<and>
   generateMermaid ast_if_else = Inr (render state_if_else) \<and>
   map node_id (nodes state_if_else) = [''node0'', ''node1'', ''node2'']"
proof -
  have first: "generateMermaidIn ast_if_else [state_while_repeat_x] =
     Inr (render state_if_else, [state_while_repeat_x, state_if_else])"
    by code_simp
  note k = generateMermaid_keeps_no_state [of ast_if_else "[state_while_repeat_x]" "[]"]
  from k first obtain r s where
    "[state_while_repeat_x, state_if_else] = [state_while_repeat_x] @ [s]"
    and ids: "map node_id (nodes s) = map nodeName [0..<length (nodes s)]"
    and "generateMermaidIn ast_if_else [state_while_repeat_x, state_if_else] =
           Inr (render state_if_else, [state_while_repeat_x, state_if_else] @ [s])"
    by blast
  then have s: "s = state_if_else"
    and second: "generateMermaidIn ast_if_else [state_while_repeat_x, state_if_else] =
     Inr (render state_if_else, [state_while_repeat_x, state_if_else, state_if_else])"
    by simp_all
  from ids have "map node_id (nodes state_if_else) = map nodeName [0..<length (nodes state_if_else)]"
    by (simp add: s)
  also have "\<dots> = [''node0'', ''node1'', ''node2'']" by code_simp
  finally have names: "map node_id (nodes state_if_else) = [''node0'', ''node1'', ''node2'']" .
  from k have e1: "map_sum id fst (generateMermaidIn ast_if_else [state_while_repeat_x]) =
      map_sum id fst (generateMermaidIn ast_if_else [])"
    and e2: "map_sum id fst (generateMermaidIn ast_if_else [state_while_repeat_x]) =
      generateMermaid ast_if_else"
    by blast+
  have v: "map_sum id fst (generateMermaidIn ast_if_else [state_while_repeat_x]) =
      Inr (render state_if_else)"
    by (simp add: first)
  from e1 [symmetric] v
  have fresh: "map_sum id fst (generateMermaidIn ast_if_else []) = Inr (render state_if_else)"
    by (rule trans)
  from e2 [symmetric] v
  have pure: "generateMermaid ast_if_else = Inr (render state_if_else)"
    by (rule trans)
  from first second fresh pure names show ?thesis by blast
qed

section \<open>The same facts of the second copy\<close>

text \<open>The traversal of \<^verbatim>\<open>src/unnamed/part_000\<close> adds to the state in the same way.\<close>

lemma traverse0_grows:
  "\<forall>r s'. traverseNode0 node p s = Inr (r, s') \<longrightarrow>
     grows False p s s' \<and> (r = None \<or> r \<in> Some ` fresh (nodeId s) (nodeId s'))"
  "\<forall>s'. forEachNode0 xs p s = Inr s' \<longrightarrow> grows False p s s'"
  "\<forall>s'. forEachClause0 cs i c s = Inr s' \<longrightarrow> grows True (Some c) s s'"
proof (induction node p s and xs p s and cs i c s rule: traverseNode0_forEachNode0_forEachClause0.induct)
  case (1 node p s)
  show ?case
  proof (intro allI impI)
    fix r s'
    assume run: "traverseNode0 node p s = Inr (r, s')"
    then obtain t where t: "getp node ''type'' = Inr t"
      by (auto simp: traverseNode0.simps [of node p s] bindE_Inr)
    consider (Chunk) "t = Str ''Chunk''" | (If) "t = Str ''IfStatement''"
      | (While) "t = Str ''WhileStatement''"
      | (ForNumeric) "t = Str ''ForNumericStatement''"
      | (Function) "t = Str ''FunctionDeclaration''"
      | (Return) "t = Str ''ReturnStatement''" | (Call) "t = Str ''CallStatement''"
      | (Assignment) "t = Str ''AssignmentStatement''"
      | (Default) "t \<noteq> Str ''Chunk''" "t \<noteq> Str ''IfStatement''"
          "t \<noteq> Str ''WhileStatement''" "t \<noteq> Str ''ForNumericStatement''"
          "t \<noteq> Str ''FunctionDeclaration''" "t \<noteq> Str ''ReturnStatement''"
          "t \<noteq> Str ''CallStatement''" "t \<noteq> Str ''AssignmentStatement''"
      by fast
    then show "grows False p s s' \<and> (r = None \<or> r \<in> Some ` fresh (nodeId s) (nodeId s'))"
    proof cases
      case Chunk
      with run t obtain b stmts where "getp node ''body'' = Inr b" "asArray b = Inr stmts"
        "forEachNode0 stmts p s = Inr s'" "r = None"
        by (auto simp: traverseNode0.simps [of node p s] bindE_Inr)
      with "1.IH"(1) [OF t Chunk] show ?thesis by blast
    next
      case If
      with run t obtain l where l: "label_IfStatement node = Inr l"
        by (auto simp: traverseNode0.simps [of node p s] bindE_Inr)
      define i s1 where "i = fst (createNode l s)" and "s1 = snd (createNode l s)"
      then have c: "createNode l s = (i, s1)" by simp
      from run t If l c obtain cl cs where cl: "getp node ''clauses'' = Inr cl"
        and cs: "asArray cl = Inr cs"
        and tr: "forEachClause0 cs 0 i (linkParent p i s1) = Inr s'"
        and r: "r = Some i"
        by (auto simp: traverseNode0.simps [of node p s] bindE_Inr)
      have "grows True (Some i) (linkParent p i s1) s'"
        using "1.IH"(2) [OF t _ If l refl c [symmetric] refl cl cs] If tr by simp
      with container_ok [OF c] r show ?thesis by blast
    next
      case While
      with run t obtain l where l: "label_WhileStatement node = Inr l"
        by (auto simp: traverseNode0.simps [of node p s] bindE_Inr)
      define i s1 where "i = fst (createNode l s)" and "s1 = snd (createNode l s)"
      then have c: "createNode l s = (i, s1)" by simp
      from run t While l c obtain b v where b: "getp node ''body'' = Inr b"
        and tr: "traverseNode0 b (Some i) (linkParent p i s1) = Inr v"
        and r: "r = Some i" "s' = snd v"
        by (auto simp: traverseNode0.simps [of node p s] bindE_Inr case_prod_beta)
      have "grows False (Some i) (linkParent p i s1) (snd v)"
        using "1.IH"(3) [OF t _ _ While l refl c [symmetric] refl b] While tr
        by (cases v) simp
      with container_ok [OF c] r show ?thesis by blast
    next
      case ForNumeric
      with run t obtain l where l: "label_ForNumericStatement0 node = Inr l"
        by (auto simp: traverseNode0.simps [of node p s] bindE_Inr)
      define i s1 where "i = fst (createNode l s)" and "s1 = snd (createNode l s)"
      then have c: "createNode l s = (i, s1)" by simp
      from run t ForNumeric l c obtain b v where b: "getp node ''body'' = Inr b"
        and tr: "traverseNode0 b (Some i) (linkParent p i s1) = Inr v"
        and r: "r = Some i" "s' = snd v"
        by (auto simp: traverseNode0.simps [of node p s] bindE_Inr case_prod_beta)
      have "grows False (Some i) (linkParent p i s1) (snd v)"
        using "1.IH"(4) [OF t _ _ _ ForNumeric l refl c [symmetric] refl b] ForNumeric tr
        by (cases v) simp
      with container_ok [OF c] r show ?thesis by blast
    next
      case Function
      with run t obtain l where l: "label_FunctionDeclaration node = Inr l"
        by (auto simp: traverseNode0.simps [of node p s] bindE_Inr)
      define i s1 where "i = fst (createNode l s)" and "s1 = snd (createNode l s)"
      then have c: "createNode l s = (i, s1)" by simp
      from run t Function l c obtain b v where b: "getp node ''body'' = Inr b"
        and tr: "traverseNode0 b (Some i) (linkParent p i s1) = Inr v"
        and r: "r = Some i" "s' = snd v"
        by (auto simp: traverseNode0.simps [of node p s] bindE_Inr case_prod_beta)
      have "grows False (Some i) (linkParent p i s1) (snd v)"
        using "1.IH"(5) [OF t _ _ _ _ Function l refl c [symmetric] refl b] Function tr
        by (cases v) simp
      with container_ok [OF c] r show ?thesis by blast
    next
      case Return
      with run t obtain l where l: "label_ReturnStatement node = Inr l"
        by (auto simp: traverseNode0.simps [of node p s] bindE_Inr)
      define i s1 where "i = fst (createNode l s)" and "s1 = snd (createNode l s)"
      then have c: "createNode l s = (i, s1)" by simp
      from run t Return l c have "r = Some i" "s' = linkParent p i s1"
        by (auto simp: traverseNode0.simps [of node p s] bindE_Inr)
      with leaf_ok [OF c] show ?thesis by blast
    next
      case Call
      with run t obtain l where l: "label_CallStatement node = Inr l"
        by (auto simp: traverseNode0.simps [of node p s] bindE_Inr)
      define i s1 where "i = fst (createNode l s)" and "s1 = snd (createNode l s)"
      then have c: "createNode l s = (i, s1)" by simp
      from run t Call l c have "r = Some i" "s' = linkParent p i s1"
        by (auto simp: traverseNode0.simps [of node p s] bindE_Inr)
      with leaf_ok [OF c] show ?thesis by blast
    next
      case Assignment
      with run t obtain l where l: "label_AssignmentStatement node = Inr l"
        by (auto simp: traverseNode0.simps [of node p s] bindE_Inr)
      define i s1 where "i = fst (createNode l s)" and "s1 = snd (createNode l s)"
      then have c: "createNode l s = (i, s1)" by simp
      from run t Assignment l c have "r = Some i" "s' = linkParent p i s1"
        by (auto simp: traverseNode0.simps [of node p s] bindE_Inr)
      with leaf_ok [OF c] show ?thesis by blast
    next
      case Default
      show ?thesis
      proof (cases "\<exists>xs. node = Arr xs")
        case True
        then obtain xs where xs: "node = Arr xs" by blast
        with run t Default have "forEachNode0 xs p s = Inr s'" "r = None"
          by (auto simp: traverseNode0.simps [of "Arr xs" p s] bindE_Inr)
        with "1.IH"(6) [OF t Default xs] show ?thesis by blast
      next
        case False
        with run t Default obtain l where l: "label_default t = Inr l"
          by (auto simp: traverseNode0.simps [of node p s] bindE_Inr case_not_Arr)
        define i s1 where "i = fst (createNode l s)" and "s1 = snd (createNode l s)"
        then have c: "createNode l s = (i, s1)" by simp
        from run t Default False l c have "r = Some i" "s' = linkParent p i s1"
          by (auto simp: traverseNode0.simps [of node p s] bindE_Inr case_not_Arr)
        with leaf_ok [OF c] show ?thesis by blast
      qed
    qed
  qed
next
  case (2 p s)
  then show ?case by (simp add: grows_refl)
next
  case (3 childNode rest p s)
  show ?case
  proof (intro allI impI)
    fix s'
    assume "forEachNode0 (childNode # rest) p s = Inr s'"
    then obtain r s1 where a: "traverseNode0 childNode p s = Inr (r, s1)"
      and b: "forEachNode0 rest p s1 = Inr s'"
      by (auto simp: bindE_Inr)
    from "3.IH"(1) a have "grows False p s s1" by blast
    moreover from "3.IH"(2) [OF a refl] b have "grows False p s1 s'" by blast
    ultimately show "grows False p s s'" by (rule grows_trans)
  qed
next
  case (4 i c s)
  then show ?case by (simp add: grows_refl)
next
  case (5 clause rest i c s)
  show ?case
  proof (intro allI impI)
    fix s'
    assume "forEachClause0 (clause # rest) i c s = Inr s'"
    then obtain b r s1 where g: "getp clause ''body'' = Inr b"
      and a: "traverseNode0 b (Some c) s = Inr (r, s1)"
      and rest: "forEachClause0 rest (i + 1) c
         (if 0 < i then s1\<lparr>edges := edges s1 @ [\<lparr>edge_from = c, edge_to = r,
              edge_condition = Some (if i = 1 then ''No'' else ''Else'')\<rparr>]\<rparr> else s1) = Inr s'"
      by (auto simp: bindE_Inr)
    let ?e = "\<lparr>edge_from = c, edge_to = r,
              edge_condition = Some (if i = 1 then ''No'' else ''Else'')\<rparr>"
    let ?s2 = "if 0 < i then s1\<lparr>edges := edges s1 @ [?e]\<rparr> else s1"
    from "5.IH"(1) [OF g] a
    have g1: "grows False (Some c) s s1" and rr: "r = None \<or> r \<in> Some ` fresh (nodeId s) (nodeId s1)"
      by blast+
    from g1 have g1': "grows True (Some c) s s1" by (rule grows_weaken)
    from rr have "newEdgeOK True (Some c) (nodeId s) (nodeId s1) ?e"
      by (auto simp: newEdgeOK_def)
    with g1' have "grows True (Some c) s ?s2"
      by (auto intro: grows_push)
    moreover from "5.IH"(2) [OF g a refl] rest have "grows True (Some c) ?s2 s'" by blast
    ultimately show "grows True (Some c) s s'" by (rule grows_trans)
  qed
qed


text \<open>The ids of a run of the second copy are \<^verbatim>\<open>node0\<close>, \<^verbatim>\<open>node1\<close>, ... in the order of the
  node list, without repetition.\<close>

lemma run0_from_initialState:
  assumes "traverseNode0 ast p initialState = Inr (r, s')"
  shows "map node_id (nodes s') = map nodeName [0..<nodeId s']"
  using traverse0_grows(1) [of ast p initialState] assms
  by (auto simp: grows_def initialState_def)

lemma second_copy_ids:
  assumes "traverseNode0 ast None initialState = Inr (r, s')"
  shows "map node_id (nodes s') = map nodeName [0..<length (nodes s')] \<and>
         distinct (map node_id (nodes s')) \<and> nodeId s' = length (nodes s')"
proof -
  from run0_from_initialState [OF assms]
  have ids: "map node_id (nodes s') = map nodeName [0..<nodeId s']" .
  then have "length (map node_id (nodes s')) = length (map nodeName [0..<nodeId s'])"
    by simp
  then have len: "nodeId s' = length (nodes s')" by simp
  with ids distinct_nodeNames [of 0 "nodeId s'"] show ?thesis by simp
qed

text \<open>An array returns \<^verbatim>\<open>null\<close> in the second copy too.\<close>

lemma second_copy_array_null:
  "traverseNode0 (Arr childNodes) parentNodeId s = Inr (r, s') \<Longrightarrow>
   r = None \<and> forEachNode0 childNodes parentNodeId s = Inr s'"
  by (auto simp: traverseNode0.simps [of "Arr childNodes" parentNodeId s] bindE_Inr)

text \<open>The edge with the \<^verbatim>\<open>null\<close> target, in the second copy.\<close>

lemma second_copy_dangling_edge:
  "traverseNode0 ast_if_else None initialState = Inr (None, state_if_else) \<and>
   generateMermaid0 ast_if_else =
     Inr (''```mermaid'' @ [CHR 0x0A] @
          ''graph TD;'' @ [CHR 0x0A] @
          ''  node0[if undefined];'' @ [CHR 0x0A] @
          ''  node1[return 1];'' @ [CHR 0x0A] @
          ''  node2[return 2];'' @ [CHR 0x0A] @
          ''  node0-->node1;'' @ [CHR 0x0A] @
          ''  node0-->node2;'' @ [CHR 0x0A] @
          ''  node0-->null;'' @ [CHR 0x0A] @ ''```'')"
  by code_simp

text \<open>The \<^verbatim>\<open>IfStatement\<close> of the second copy: the condition node, the branch labels, and
  the conditions that are not read.\<close>

lemma traverse0_If:
  assumes "getp node ''type'' = Inr (Str ''IfStatement'')"
  shows "traverseNode0 node p s =
     bindE (label_IfStatement node) (\<lambda>l.
       bindE (getp node ''clauses'') (\<lambda>c. bindE (asArray c) (\<lambda>cs.
         bindE (forEachClause0 cs 0 (fst (createNode l s))
                  (linkParent p (fst (createNode l s)) (snd (createNode l s))))
           (\<lambda>s3. Inr (Some (fst (createNode l s)), s3)))))"
  using assms by (simp add: traverseNode0.simps [of node p s] case_prod_beta Let_def)

lemma forEachClause0_bodies:
  "list_all2 (\<lambda>a b. getp a ''body'' = getp b ''body'') cs cs' \<Longrightarrow>
   forEachClause0 cs i c s = forEachClause0 cs' i c s"
proof (induction arbitrary: i s rule: list_all2_induct)
  case Nil
  show ?case by simp
next
  case (Cons a as b bs)
  show ?case
  proof (cases "getp b ''body''")
    case (Inl e)
    with Cons.hyps show ?thesis by simp
  next
    case (Inr v)
    with Cons.hyps have "getp a ''body'' = Inr v" by simp
    with Inr Cons.IH show ?thesis
      by (cases "traverseNode0 v (Some c) s") (auto simp: case_prod_beta)
  qed
qed

lemma forEachClause0_labels:
  "forEachClause0 cs i (nodeName k) s = Inr s' \<Longrightarrow> k < nodeId s \<Longrightarrow>
   \<exists>es. edges s' = edges s @ es \<and>
     branchLabels (nodeName k) es =
       map (\<lambda>j. Some (if j = 1 then ''No'' else ''Else'')) [max 1 i..<i + length cs]"
proof (induction cs arbitrary: i s)
  case Nil
  then show ?case by (simp add: branchLabels_def)
next
  case (Cons clause rest)
  let ?c = "nodeName k"
  from Cons.prems(1) obtain b r s1 where g: "getp clause ''body'' = Inr b"
    and a: "traverseNode0 b (Some ?c) s = Inr (r, s1)"
    and rest: "forEachClause0 rest (i + 1) ?c
         (if 0 < i then s1\<lparr>edges := edges s1 @ [\<lparr>edge_from = ?c, edge_to = r,
              edge_condition = Some (if i = 1 then ''No'' else ''Else'')\<rparr>]\<rparr> else s1) = Inr s'"
    by (auto simp: bindE_Inr)
  let ?e = "\<lparr>edge_from = ?c, edge_to = r,
              edge_condition = Some (if i = 1 then ''No'' else ''Else'')\<rparr>"
  let ?s2 = "if 0 < i then s1\<lparr>edges := edges s1 @ [?e]\<rparr> else s1"
  from traverse0_grows(1) [of b "Some ?c" s] a
  have g1: "grows False (Some ?c) s s1" by simp
  then obtain es1 where es1: "edges s1 = edges s @ es1" and le: "nodeId s \<le> nodeId s1"
    by (auto simp: grows_def)
  from body_edges_unlabelled [OF g1 Cons.prems(2) es1]
  have u: "branchLabels ?c es1 = []" .
  have k2: "k < nodeId ?s2" using le Cons.prems(2) by simp
  from Cons.IH [OF rest k2] obtain es2 where es2: "edges s' = edges ?s2 @ es2"
    and l2: "branchLabels ?c es2 =
       map (\<lambda>j. Some (if j = 1 then ''No'' else ''Else'')) [max 1 (i + 1)..<i + 1 + length rest]"
    by blast
  let ?f = "\<lambda>j::nat. Some (if j = 1 then ''No'' else ''Else'')"
  have iv2: "[max 1 (i + 1)..<i + 1 + length rest] = [Suc i..<Suc (i + length rest)]"
    by (simp add: max_def del: upt_Suc)
  show ?case
  proof (cases "0 < i")
    case True
    then have iv: "[max 1 i..<i + length (clause # rest)] = i # [Suc i..<Suc (i + length rest)]"
      by (simp add: max_def upt_conv_Cons del: upt_Suc)
    from True have "edges s' = edges s @ (es1 @ [?e] @ es2)" using es1 es2 by simp
    moreover have "branchLabels ?c (es1 @ [?e] @ es2) =
        map ?f [max 1 i..<i + length (clause # rest)]"
    proof -
      have one: "branchLabels ?c [?e] = [?f i]"
        by (simp add: branchLabels_def)
      have "branchLabels ?c (es1 @ [?e] @ es2) =
          branchLabels ?c es1 @ branchLabels ?c [?e] @ branchLabels ?c es2"
        by (simp only: branchLabels_append)
      also have "\<dots> = ?f i # map ?f [Suc i..<Suc (i + length rest)]"
        unfolding u one l2 iv2 by (simp only: append_Nil append_Cons)
      also have "\<dots> = map ?f [max 1 i..<i + length (clause # rest)]"
        unfolding iv by (simp only: list.map)
      finally show ?thesis .
    qed
    ultimately show ?thesis by blast
  next
    case False
    then have iv: "[max 1 i..<i + length (clause # rest)] = [Suc i..<Suc (i + length rest)]"
      by (simp add: max_def del: upt_Suc)
    from False have "edges s' = edges s @ (es1 @ es2)" using es1 es2 by simp
    moreover have "branchLabels ?c (es1 @ es2) = map ?f [max 1 i..<i + length (clause # rest)]"
      unfolding iv using u l2 iv2 by (simp del: upt_Suc)
    ultimately show ?thesis by blast
  qed
qed


lemma second_copy_condition_node:
  assumes "getp node ''type'' = Inr (Str ''IfStatement'')"
    and "traverseNode0 node parentNodeId s = Inr (r, s')"
  shows "\<exists>c0 rest cond raw t s2 es.
     getp node ''clauses'' = Inr (Arr (c0 # rest)) \<and>
     getp c0 ''condition'' = Inr cond \<and> getp cond ''raw'' = Inr raw \<and> toStr raw = Inr t \<and>
     r = Some (nodeName (nodeId s)) \<and>
     s2 = \<lparr>nodes = nodes s @ [\<lparr>node_id = nodeName (nodeId s),
                                 node_label = sanitizeLabel (''if '' @ t)\<rparr>],
           edges = edges s @ parentLink parentNodeId (nodeName (nodeId s)),
           nodeId = nodeId s + 1\<rparr> \<and>
     forEachClause0 (c0 # rest) 0 (nodeName (nodeId s)) s2 = Inr s' \<and>
     nodes s' ! length (nodes s) =
       \<lparr>node_id = nodeName (nodeId s), node_label = sanitizeLabel (''if '' @ t)\<rparr> \<and>
     edges s' = edges s2 @ es \<and>
     branchLabels (nodeName (nodeId s)) es =
       map (\<lambda>j. Some (if j = 1 then ''No'' else ''Else'')) [1..<length (c0 # rest)] \<and>
     (\<forall>node' c0' rest' cond'.
        getp node' ''type'' = Inr (Str ''IfStatement'') \<longrightarrow>
        getp node' ''clauses'' = Inr (Arr (c0' # rest')) \<longrightarrow>
        getp c0' ''condition'' = Inr cond' \<longrightarrow> getp cond' ''raw'' = Inr raw \<longrightarrow>
        list_all2 (\<lambda>a b. getp a ''body'' = getp b ''body'') (c0 # rest) (c0' # rest') \<longrightarrow>
        traverseNode0 node' parentNodeId s = Inr (r, s'))"
proof -
  let ?i = "nodeName (nodeId s)"
  from assms obtain l cl cs where l: "label_IfStatement node = Inr l"
    and cl: "getp node ''clauses'' = Inr cl" and cs: "asArray cl = Inr cs"
    and loop: "forEachClause0 cs 0 (fst (createNode l s))
         (linkParent parentNodeId (fst (createNode l s)) (snd (createNode l s))) = Inr s'"
    and r: "r = Some (fst (createNode l s))"
    by (auto simp: traverse0_If bindE_Inr)
  from cs have cl': "cl = Arr cs" by (cases cl) auto
  from label_If_parts [OF l cl [unfolded cl']] obtain c0 rest cond raw t where
    cs': "cs = c0 # rest" and cond: "getp c0 ''condition'' = Inr cond"
    and raw: "getp cond ''raw'' = Inr raw" and t: "toStr raw = Inr t"
    and l': "l = ''if '' @ t"
    by blast
  let ?n = "\<lparr>node_id = ?i, node_label = sanitizeLabel (''if '' @ t)\<rparr>"
  define s2 where "s2 = linkParent parentNodeId ?i (snd (createNode l s))"
  have i: "fst (createNode l s) = ?i" by (simp add: createNode_def Let_def)
  have s2': "s2 = \<lparr>nodes = nodes s @ [?n], edges = edges s @ parentLink parentNodeId ?i,
                   nodeId = nodeId s + 1\<rparr>"
    by (simp add: s2_def linkParent_state createNode_def Let_def l')
  have n2: "nodes s2 = nodes s @ [?n]" by (simp add: s2')
  have id2: "nodeId s2 = Suc (nodeId s)" by (simp add: s2')
  from loop have loop': "forEachClause0 (c0 # rest) 0 ?i s2 = Inr s'"
    by (simp add: i s2_def cs')
  from traverse0_grows(3) [of "c0 # rest" 0 ?i s2] loop'
  have "grows True (Some ?i) s2 s'" by simp
  then obtain ns where "nodes s' = nodes s2 @ ns" by (auto simp: grows_def)
  with n2 have nth: "nodes s' ! length (nodes s) = ?n" by simp
  from forEachClause0_labels [OF loop'] id2 obtain es where es: "edges s' = edges s2 @ es"
    and lab: "branchLabels ?i es =
       map (\<lambda>j. Some (if j = 1 then ''No'' else ''Else'')) [max 1 0..<0 + length (c0 # rest)]"
    by auto
  from lab have lab': "branchLabels ?i es =
       map (\<lambda>j. Some (if j = 1 then ''No'' else ''Else'')) [1..<length (c0 # rest)]"
    by (simp del: upt_Suc)
  have ni: "traverseNode0 node' parentNodeId s = Inr (r, s')"
    if t': "getp node' ''type'' = Inr (Str ''IfStatement'')"
      and c': "getp node' ''clauses'' = Inr (Arr (c0' # rest'))"
      and cond': "getp c0' ''condition'' = Inr cond'" and raw': "getp cond' ''raw'' = Inr raw"
      and same: "list_all2 (\<lambda>a b. getp a ''body'' = getp b ''body'') (c0 # rest) (c0' # rest')"
    for node' c0' rest' cond'
  proof -
    have "label_IfStatement node' = Inr l"
      using c' cond' raw' t by (simp add: label_IfStatement_def l')
    moreover have "forEachClause0 (c0' # rest') 0 ?i s2 = Inr s'"
      using forEachClause0_bodies [OF same, of 0 ?i s2] loop' by simp
    ultimately show ?thesis
      using t' c' r by (simp add: traverse0_If i s2_def)
  qed
  from cl cl' cs' have "getp node ''clauses'' = Inr (Arr (c0 # rest))" by simp
  with cond raw t r i s2' loop' nth es lab' ni show ?thesis by blast
qed

text \<open>The second copy reads the same property \<^verbatim>\<open>raw\<close>: on
  \<^verbatim>\<open>if a then return 1 elseif b then return 2 else return 3 end\<close> its condition node is
  labelled \<^verbatim>\<open>if undefined\<close> too.\<close>

lemma second_copy_if_label_undefined:
  "traverseNode0 ast_if_a_elseif_b None initialState =
     Inr (None,
          \<lparr>nodes =
             [\<lparr>node_id = ''node0'', node_label = ''if undefined''\<rparr>,
              \<lparr>node_id = ''node1'', node_label = ''return 1''\<rparr>,
              \<lparr>node_id = ''node2'', node_label = ''return 2''\<rparr>,
              \<lparr>node_id = ''node3'', node_label = ''return 3''\<rparr>],
           edges =
             [\<lparr>edge_from = ''node0'', edge_to = Some ''node1'', edge_condition = None\<rparr>,
              \<lparr>edge_from = ''node0'', edge_to = Some ''node2'', edge_condition = None\<rparr>,
              \<lparr>edge_from = ''node0'', edge_to = None, edge_condition = Some ''No''\<rparr>,
              \<lparr>edge_from = ''node0'', edge_to = Some ''node3'', edge_condition = None\<rparr>,
              \<lparr>edge_from = ''node0'', edge_to = None, edge_condition = Some ''Else''\<rparr>],
           nodeId = 4\<rparr>)"
  by code_simp

text \<open>The second copy has no case for a \<^verbatim>\<open>RepeatStatement\<close>: it is the default case, one
  node with the name of the kind, and the body is not traversed.\<close>

lemma second_copy_repeat:
  assumes "getp node ''type'' = Inr (Str ''RepeatStatement'')"
  shows "traverseNode0 node p s =
     Inr (Some (fst (createNode ''RepeatStatement'' s)),
          linkParent p (fst (createNode ''RepeatStatement'' s))
            (snd (createNode ''RepeatStatement'' s)))"
proof -
  from assms have "\<not> (\<exists>xs. node = Arr xs)" by auto
  with assms show ?thesis
    by (simp add: traverseNode0.simps [of node p s] case_not_Arr case_prod_beta)
qed

text \<open>The second copy declares the three variables in the body of \<^verbatim>\<open>generateMermaid\<close> too:
  what an invocation returns does not depend on the invocations before, and it leaves
  their records as they were.\<close>

lemma second_copy_keeps_no_state:
  "map_sum id fst (generateMermaid0In ast h1) = map_sum id fst (generateMermaid0In ast h2) \<and>
   map_sum id fst (generateMermaid0In ast h1) = generateMermaid0 ast \<and>
   (\<forall>out h'. generateMermaid0In ast h1 = Inr (out, h') \<longrightarrow>
      (\<exists>s. h' = h1 @ [s] \<and> generateMermaid0In ast h' = Inr (out, h' @ [s])))"
proof -
  have g: "map_sum id fst (generateMermaid0In ast h) = generateMermaid0 ast" for h
    by (cases "traverseNode0 ast None initialState")
       (auto simp: generateMermaid0In_run generateMermaid0_def)
  have "\<exists>s. h' = h1 @ [s] \<and> generateMermaid0In ast h' = Inr (out, h' @ [s])"
    if "generateMermaid0In ast h1 = Inr (out, h')" for out h'
    using that by (auto simp: generateMermaid0In_run bindE_Inr)
  with g [of h1] g [of h2] show ?thesis by simp
qed

end
